theory Spec2Isabelle
  imports Main "HOL-Library.Char_ord" "HOL-Library.List_Lexorder" "HOL-Library.AList"
begin

section \<open>Incremental rendering pipeline: generator expansion, validation and job execution\<close>

text \<open>
  A shallow embedding of \<^verbatim>\<open>render.py\<close>, the command-line program that expands
  templated configuration entries, validates the configuration and runs, for every job, a
  chain of filters and a list of tasks, skipping what an earlier run already produced.
  Every definition follows one function or one block of the script and keeps its names; the
  line numbers in the texts are those of the script.

  Text is modelled as \<open>string\<close>, one \<open>char\<close> per code point (code points up to 255).
  Exceptions, and the script's \<^verbatim>\<open>error(...)\<close> (which prints and exits), are values of the
  type \<open>error\<close>: a function that can raise returns \<open>error + 'a\<close>, with \<open>Inl\<close> for the
  exception. A raise ends the process, so the state reached before it is not returned.
\<close>

subsection \<open>Values of a parsed document\<close>

text \<open>
  The values a parsed configuration or state document holds. A table is an association
  list in insertion order, as a Python \<^verbatim>\<open>dict\<close> iterates; its keys are distinct
  (\<open>well_formed\<close> below says so where a proof needs it). Floating-point numbers and
  date-times are left out: what the script does with them (\<^verbatim>\<open>str\<close>, \<^verbatim>\<open>json.dumps\<close>)
  depends on the shortest-digits printing of floats.
\<close>

datatype pyval = PNone | PBool bool | PInt int | PStr string
  | PList "pyval list" | PDict "(string \<times> pyval) list"

text \<open>
  \<open>TypeError\<close> stands for Python's \<^verbatim>\<open>TypeError\<close> and \<^verbatim>\<open>AttributeError\<close>: an
  operation applied to a value of the wrong kind. The constructors from \<open>NoParameters\<close> to
  \<open>DuplicateAttachmentTarget\<close> are the messages of \<^verbatim>\<open>error(...)\<close>, with the names they
  mention.
\<close>

datatype error =
    ArgumentTypeError
  | ValueError
  | TypeError
  | KeyError string
  | AssertionError
  | NoParameters string pyval
  | DifferentNumbersOfValues string pyval
  | NameAlreadyExists string pyval string
  | NotListedInSources string
  | UnknownFilter string string
  | UnmatchedTaskPattern string string
  | InvalidTimecode string string error
  | DuplicateAttachmentTarget string
  | RegexError string
  | ExternalFailure
  | FileNotFoundError string

text \<open>
  Sequencing: the second computation runs only when the first did not raise.
  \<open>foldE\<close> is a \<^verbatim>\<open>for\<close> loop whose body can raise, \<open>mapE\<close> a list comprehension.
\<close>

definition bindE :: "error + 'a \<Rightarrow> ('a \<Rightarrow> error + 'b) \<Rightarrow> error + 'b" where
  "bindE m f = (case m of Inl e \<Rightarrow> Inl e | Inr x \<Rightarrow> f x)"

fun foldE :: "('a \<Rightarrow> 's \<Rightarrow> error + 's) \<Rightarrow> 'a list \<Rightarrow> 's \<Rightarrow> error + 's" where
  "foldE f [] s = Inr s"
| "foldE f (x # xs) s = bindE (f x s) (foldE f xs)"

fun mapE :: "('a \<Rightarrow> error + 'b) \<Rightarrow> 'a list \<Rightarrow> error + 'b list" where
  "mapE f [] = Inr []"
| "mapE f (x # xs) = bindE (f x) (\<lambda>y. bindE (mapE f xs) (\<lambda>ys. Inr (y # ys)))"

text \<open>
  \<^verbatim>\<open>v[k]\<close> for a string key: a table looks the key up (\<^verbatim>\<open>KeyError\<close> when absent);
  a string, a list or a scalar raises a type error. Iteration (\<open>py_iter\<close>) over a table
  yields its keys, over a string its characters; \<^verbatim>\<open>len\<close> likewise.
\<close>

definition getitem :: "pyval \<Rightarrow> string \<Rightarrow> error + pyval" where
  "getitem v k =
     (case v of
        PDict kvs \<Rightarrow> (case map_of kvs k of None \<Rightarrow> Inl (KeyError k) | Some x \<Rightarrow> Inr x)
      | _ \<Rightarrow> Inl TypeError)"

definition py_iter :: "pyval \<Rightarrow> error + pyval list" where
  "py_iter v =
     (case v of
        PList xs \<Rightarrow> Inr xs
      | PDict kvs \<Rightarrow> Inr (map (\<lambda>kv. PStr (fst kv)) kvs)
      | PStr s \<Rightarrow> Inr (map (\<lambda>c. PStr [c]) s)
      | _ \<Rightarrow> Inl TypeError)"

definition py_len :: "pyval \<Rightarrow> error + nat" where
  "py_len v =
     (case v of
        PList xs \<Rightarrow> Inr (length xs)
      | PDict kvs \<Rightarrow> Inr (length kvs)
      | PStr s \<Rightarrow> Inr (length s)
      | _ \<Rightarrow> Inl TypeError)"

definition dict_items :: "pyval \<Rightarrow> error + (string \<times> pyval) list" where
  "dict_items v = (case v of PDict kvs \<Rightarrow> Inr kvs | _ \<Rightarrow> Inl TypeError)"

definition as_str :: "pyval \<Rightarrow> error + string" where
  "as_str v = (case v of PStr s \<Rightarrow> Inr s | _ \<Rightarrow> Inl TypeError)"

subsection \<open>Timecodes (lines 77 and 131-175)\<close>

text \<open>
  \<open>is_decimal\<close> is the class \<^verbatim>\<open>\d\<close> of the pattern (the digits 0 to 9 among the code points
  modelled); \<^verbatim>\<open>str.isdigit\<close> also accepts the superscript digits (code points 178, 179,
  185), which \<^verbatim>\<open>int\<close> then refuses.
\<close>

definition is_decimal :: "char \<Rightarrow> bool" where
  "is_decimal c = (48 \<le> (of_char c :: nat) \<and> (of_char c :: nat) \<le> 57)"

definition py_isdigit_char :: "char \<Rightarrow> bool" where
  "py_isdigit_char c = (is_decimal c \<or> (of_char c :: nat) \<in> {178, 179, 185})"

definition isdigit :: "string \<Rightarrow> bool" where
  "isdigit s = (s \<noteq> [] \<and> list_all py_isdigit_char s)"

definition digit_char :: "nat \<Rightarrow> char" where
  "digit_char d = char_of (48 + d)"

definition digit_val :: "char \<Rightarrow> nat" where
  "digit_val c = of_char c - 48"

text \<open>
  Decimal printing: \<open>str_int\<close> is \<^verbatim>\<open>str\<close> of an integer, \<open>format_0d w\<close> the format
  \<^verbatim>\<open>{:0wd}\<close> (zero padding to width \<open>w\<close>, the sign counted in the width).
  \<open>int_of_decimal\<close> reads a run of decimal digits; \<open>py_int\<close> is \<^verbatim>\<open>int(text)\<close> on a text
  without sign or spaces. The interpreter's limit on the number of digits \<^verbatim>\<open>int\<close> converts
  is not modelled.
\<close>

fun str_nat :: "nat \<Rightarrow> string" where
  "str_nat n = (if n < 10 then [digit_char n] else str_nat (n div 10) @ [digit_char (n mod 10)])"

declare str_nat.simps [simp del]

definition str_int :: "int \<Rightarrow> string" where
  "str_int i = (if i < 0 then CHR ''-'' # str_nat (nat (- i)) else str_nat (nat i))"

definition zfill :: "nat \<Rightarrow> string \<Rightarrow> string" where
  "zfill w s = replicate (w - length s) CHR ''0'' @ s"

definition format_0d :: "nat \<Rightarrow> int \<Rightarrow> string" where
  "format_0d w i = (if i < 0 then CHR ''-'' # zfill (w - 1) (str_nat (nat (- i)))
                    else zfill w (str_nat (nat i)))"

definition int_of_decimal :: "string \<Rightarrow> nat" where
  "int_of_decimal s = foldl (\<lambda>a c. 10 * a + digit_val c) 0 s"

definition py_int :: "string \<Rightarrow> error + int" where
  "py_int s = (if s \<noteq> [] \<and> list_all is_decimal s then Inr (int (int_of_decimal s)) else Inl ValueError)"

text \<open>
  Lines 131-138. Python's \<^verbatim>\<open>//\<close> rounds down, as \<open>div\<close> on \<open>int\<close> does.
\<close>

definition timestamp_to_timecode :: "int \<Rightarrow> string" where
  "timestamp_to_timecode timestamp =
     (let hours = timestamp div (60 * 60 * 1000000);
          timestamp = timestamp - hours * 60 * 60 * 1000000;
          minutes = timestamp div (60 * 1000000);
          timestamp = timestamp - minutes * 60 * 1000000;
          seconds = timestamp div 1000000;
          timestamp = timestamp - seconds * 1000000
      in format_0d 2 hours @ '':'' @ format_0d 2 minutes @ '':'' @ format_0d 2 seconds
           @ ''.'' @ format_0d 6 timestamp)"

text \<open>
  Line 77: the pattern \<^verbatim>\<open>^(\d+):(\d+):(\d+)(?:\.(\d+))?$\<close>, matched from the start of the
  text. Each group is a maximal run of digits (the character after a group is never a
  digit, so backtracking changes nothing), and \<^verbatim>\<open>$\<close> matches at the end of the text or
  before a final newline (\<open>at_end\<close>). The result is the four groups, the fraction optional.
\<close>

definition at_end :: "string \<Rightarrow> bool" where
  "at_end r = (r = [] \<or> r = [CHR 0x0A])"

definition TIMECODE_PATTERN :: "string \<Rightarrow> (string \<times> string \<times> string \<times> string option) option" where
  "TIMECODE_PATTERN v =
     (let g1 = takeWhile is_decimal v; r1 = dropWhile is_decimal v in
      if g1 = [] \<or> take 1 r1 \<noteq> '':'' then None else
      (let g2 = takeWhile is_decimal (drop 1 r1); r2 = dropWhile is_decimal (drop 1 r1) in
       if g2 = [] \<or> take 1 r2 \<noteq> '':'' then None else
       (let g3 = takeWhile is_decimal (drop 1 r2); r3 = dropWhile is_decimal (drop 1 r2) in
        if g3 = [] then None
        else if at_end r3 then Some (g1, g2, g3, None)
        else if take 1 r3 \<noteq> ''.'' then None else
        (let g4 = takeWhile is_decimal (drop 1 r3); r4 = dropWhile is_decimal (drop 1 r3) in
         if g4 \<noteq> [] \<and> at_end r4 then Some (g1, g2, g3, Some g4) else None))))"

text \<open>
  Lines 156-175. A fraction longer than six digits is rounded in floating point
  (\<^verbatim>\<open>round(float("0." + fraction_string) * 1e6)\<close>); that computation is the parameter
  \<open>round_fraction\<close>.
\<close>

definition timecode :: "(string \<Rightarrow> int) \<Rightarrow> string \<Rightarrow> error + int" where
  "timecode round_fraction v =
     (if isdigit v then py_int v
      else case TIMECODE_PATTERN v of
        None \<Rightarrow> Inl ArgumentTypeError
      | Some (g1, g2, g3, g4) \<Rightarrow>
          (let result = int (int_of_decimal g1) * 3600000000 + int (int_of_decimal g2) * 60000000
                        + int (int_of_decimal g3) * 1000000
           in (case g4 of
                None \<Rightarrow> Inr result
              | Some fraction_string \<Rightarrow>
                  if length fraction_string = 6 then Inr (result + int (int_of_decimal fraction_string))
                  else if length fraction_string < 6 then
                    Inr (result + int (int_of_decimal (fraction_string
                            @ replicate (6 - length fraction_string) CHR ''0'')))
                  else Inr (result + round_fraction fraction_string))))"

text \<open>
  Lines 141-153, the short timecode used in directory names.
\<close>

definition rstrip_zeros :: "string \<Rightarrow> string" where
  "rstrip_zeros s = rev (dropWhile (\<lambda>c. c = CHR ''0'') (rev s))"

definition timestamp_to_short_timecode :: "int \<Rightarrow> string" where
  "timestamp_to_short_timecode timestamp =
     (let hours = timestamp div (60 * 60 * 1000000);
          timestamp = timestamp - hours * 60 * 60 * 1000000;
          minutes = timestamp div (60 * 1000000);
          timestamp = timestamp - minutes * 60 * 1000000;
          seconds = timestamp div 1000000;
          timestamp = timestamp - seconds * 1000000;
          timestamp_string = (if timestamp = 0 then [] else rstrip_zeros (''.'' @ format_0d 6 timestamp))
      in if hours > 0 then
           str_int hours @ '':'' @ format_0d 2 minutes @ '':'' @ format_0d 2 seconds @ timestamp_string
         else if minutes > 0 then str_int minutes @ '':'' @ format_0d 2 seconds @ timestamp_string
         else str_int seconds @ timestamp_string)"

subsection \<open>Generator expansion (lines 265-340)\<close>

text \<open>
  \<^verbatim>\<open>str.replace(old, new)\<close>: every occurrence of \<open>old\<close>, found from left to right
  without overlap, becomes \<open>new\<close>; an empty \<open>old\<close> inserts \<open>new\<close> around every character.
\<close>

fun replace_from :: "string \<Rightarrow> string \<Rightarrow> string \<Rightarrow> string" where
  "replace_from old new [] = []"
| "replace_from old new (c # cs) =
     (if take (length old) (c # cs) = old
      then new @ replace_from old new (drop (length old - 1) cs)
      else c # replace_from old new cs)"

definition replace :: "string \<Rightarrow> string \<Rightarrow> string \<Rightarrow> string" where
  "replace old new s =
     (if old = [] then new @ concat (map (\<lambda>c. c # new) s) else replace_from old new s)"

text \<open>
  \<^verbatim>\<open>str(value)\<close>: a string is itself, any other value prints as \<^verbatim>\<open>repr\<close> does, a string
  inside a list or a table in quotes with its escapes.
\<close>

definition hex_digit :: "nat \<Rightarrow> char" where
  "hex_digit d = (if d < 10 then char_of (48 + d) else char_of (87 + d))"

definition repr_printable :: "char \<Rightarrow> bool" where
  "repr_printable c = (let n = (of_char c :: nat) in
     (32 \<le> n \<and> n < 127) \<or> (161 \<le> n \<and> n \<noteq> 173))"

definition repr_char :: "char \<Rightarrow> char \<Rightarrow> string" where
  "repr_char quote c =
     (if c = quote \<or> c = CHR 0x5C then [CHR 0x5C, c]
      else if c = CHR 0x09 then [CHR 0x5C, CHR ''t'']
      else if c = CHR 0x0A then [CHR 0x5C, CHR ''n'']
      else if c = CHR 0x0D then [CHR 0x5C, CHR ''r'']
      else if repr_printable c then [c]
      else [CHR 0x5C, CHR ''x'', hex_digit (of_char c div 16), hex_digit (of_char c mod 16)])"

definition repr_str :: "string \<Rightarrow> string" where
  "repr_str s =
     (let quote = (if CHR 0x27 \<in> set s \<and> CHR 0x22 \<notin> set s then CHR 0x22 else CHR 0x27)
      in quote # concat (map (repr_char quote) s) @ [quote])"

fun join :: "string \<Rightarrow> string list \<Rightarrow> string" where
  "join sep [] = []"
| "join sep [x] = x"
| "join sep (x # y # ys) = x @ sep @ join sep (y # ys)"

fun py_repr :: "pyval \<Rightarrow> string" where
  "py_repr PNone = ''None''"
| "py_repr (PBool b) = (if b then ''True'' else ''False'')"
| "py_repr (PInt i) = str_int i"
| "py_repr (PStr s) = repr_str s"
| "py_repr (PList xs) = ''['' @ join '', '' (map py_repr xs) @ '']''"
| "py_repr (PDict kvs) =
     ''{'' @ join '', '' (map (\<lambda>kv. repr_str (fst kv) @ '': '' @ py_repr (snd kv)) kvs) @ ''}''"

definition py_str :: "pyval \<Rightarrow> string" where
  "py_str v = (case v of PStr s \<Rightarrow> s | _ \<Rightarrow> py_repr v)"

text \<open>
  Lines 265-282. The loop assigns to keys that exist, so the order of the table is kept:
  a string equal to \<^verbatim>\<open>@raw(name)\<close> becomes the parameter value itself, any other string
  has \<^verbatim>\<open>@name\<close> replaced by the value's text, a nested table is treated in the same way,
  and every other value (a list among them) is left as it is. The script shares a value
  inserted by \<^verbatim>\<open>@raw\<close> with the generator's parameters instead of copying it; that
  matters only for a table-valued parameter inserted at two places, and not here.
\<close>

fun recursive_replace :: "(string \<times> pyval) list \<Rightarrow> string \<Rightarrow> pyval \<Rightarrow> (string \<times> pyval) list" where
  "recursive_replace [] parameter_name parameter_value = []"
| "recursive_replace ((key, PStr s) # template) parameter_name parameter_value =
     (key, if s = ''@raw('' @ parameter_name @ '')'' then parameter_value
           else PStr (replace (''@'' @ parameter_name) (py_str parameter_value) s))
     # recursive_replace template parameter_name parameter_value"
| "recursive_replace ((key, PDict d) # template) parameter_name parameter_value =
     (key, PDict (recursive_replace d parameter_name parameter_value))
     # recursive_replace template parameter_name parameter_value"
| "recursive_replace ((key, v) # template) parameter_name parameter_value =
     (key, v) # recursive_replace template parameter_name parameter_value"

text \<open>
  Lines 284-340, one definition per level of the loop nest. \<open>template_name\<close> is the
  expression \<^verbatim>\<open>generator['template']['name']\<close> of the three messages.
  \<open>parameters_names_and_values\<close> is the stable sort of line 305 by descending length of the
  name, \<open>zip_values\<close> the \<^verbatim>\<open>zip(*...)\<close> of line 309: one row per index, each row pairing
  every name with its value at that index.
\<close>

definition template_name :: "pyval \<Rightarrow> error + pyval" where
  "template_name generator = bindE (getitem generator ''template'') (\<lambda>t. getitem t ''name'')"

definition parameters_names_and_values :: "(string \<times> pyval) list \<Rightarrow> (string \<times> pyval) list" where
  "parameters_names_and_values items = sort_key (\<lambda>key_and_value. - int (length (fst key_and_value))) items"

definition zip_values :: "(string \<times> pyval list) list \<Rightarrow> (string \<times> pyval) list list" where
  "zip_values names_and_values =
     (case names_and_values of
        [] \<Rightarrow> []
      | nv # _ \<Rightarrow> map (\<lambda>i. map (\<lambda>nv. (fst nv, snd nv ! i)) names_and_values)
                    [0..<foldr (\<lambda>nv n. min (length (snd nv)) n) names_and_values (length (snd nv))])"

text \<open>
  Lines 318-331: one parameter applied to the generated name (not for jobs) and to the
  generated entry.
\<close>

definition substitute :: "string \<Rightarrow> string \<times> pyval \<Rightarrow> pyval \<times> pyval \<Rightarrow> error + pyval \<times> pyval" where
  "substitute key name_and_value name_and_entry =
     (let parameter_name = fst name_and_value; parameter_value = snd name_and_value;
          generated_entry_name = fst name_and_entry; generated_entry = snd name_and_entry
      in bindE (if key \<noteq> ''jobs'' then
                  (case generated_entry_name of
                     PNone \<Rightarrow> Inl AssertionError
                   | PStr s \<Rightarrow> Inr (PStr (replace (''@'' @ parameter_name) (py_str parameter_value) s))
                   | _ \<Rightarrow> Inl TypeError)
                else Inr generated_entry_name)
           (\<lambda>generated_entry_name.
              bindE (dict_items generated_entry)
                (\<lambda>d. Inr (generated_entry_name, PDict (recursive_replace d parameter_name parameter_value)))))"

text \<open>
  Lines 312-331: the copy of the template, the name taken out of it (not for jobs), and
  all parameters of the row applied in order.
\<close>

definition generate_entry :: "string \<Rightarrow> pyval \<Rightarrow> (string \<times> pyval) list \<Rightarrow> error + pyval \<times> pyval" where
  "generate_entry key generator parameters_values =
     bindE (getitem generator ''template'')
       (\<lambda>generated_entry.
          bindE (if key = ''jobs'' then Inr (PNone, generated_entry)
                 else bindE (getitem generated_entry ''name'')
                        (\<lambda>n. bindE (dict_items generated_entry)
                           (\<lambda>d. Inr (n, PDict (AList.delete ''name'' d)))))
            (foldE (substitute key) parameters_values))"

text \<open>
  Lines 332-339: a job is appended to the list of jobs; a filter or task is stored under
  its generated name, which must be new.
\<close>

definition insert_entry :: "string \<Rightarrow> pyval \<Rightarrow> pyval \<times> pyval \<Rightarrow> (string \<times> pyval) list
    \<Rightarrow> error + (string \<times> pyval) list" where
  "insert_entry key generator name_and_entry configuration =
     (let generated_entry_name = fst name_and_entry; generated_entry = snd name_and_entry
      in case map_of configuration key of
           None \<Rightarrow> Inl (KeyError key)
         | Some collection \<Rightarrow>
             if key = ''jobs'' then
               (case collection of
                  PList jobs \<Rightarrow> Inr (AList.update key (PList (jobs @ [generated_entry])) configuration)
                | _ \<Rightarrow> Inl TypeError)
             else
               (case (collection, generated_entry_name) of
                  (PDict entries, PStr n) \<Rightarrow>
                    if n \<in> set (map fst entries)
                    then bindE (template_name generator) (\<lambda>t. Inl (NameAlreadyExists key t n))
                    else Inr (AList.update key (PDict (AList.update n generated_entry entries)) configuration)
                | _ \<Rightarrow> Inl TypeError))"

text \<open>
  Lines 291-339 for one generator: the two checks on the numbers of values, then one entry
  per row.
\<close>

definition run_generator :: "string \<Rightarrow> pyval \<Rightarrow> (string \<times> pyval) list \<Rightarrow> error + (string \<times> pyval) list" where
  "run_generator key generator configuration =
     bindE (getitem generator ''parameters'')
       (\<lambda>parameters. bindE (dict_items parameters)
       (\<lambda>items. bindE (mapE py_len (map snd items))
       (\<lambda>values_counts.
          if length values_counts = 0
          then bindE (template_name generator) (\<lambda>t. Inl (NoParameters key t))
          else if \<not> list_all (\<lambda>values_count. values_count = values_counts ! 0) values_counts
          then bindE (template_name generator) (\<lambda>t. Inl (DifferentNumbersOfValues key t))
          else bindE (mapE (\<lambda>nv. bindE (py_iter (snd nv)) (\<lambda>vs. Inr (fst nv, vs)))
                        (parameters_names_and_values items))
            (\<lambda>names_and_values.
               foldE (\<lambda>parameters_values configuration.
                        bindE (generate_entry key generator parameters_values)
                          (\<lambda>name_and_entry. insert_entry key generator name_and_entry configuration))
                 (zip_values names_and_values) configuration))))"

text \<open>
  Lines 285-340: the three kinds in order; a kind's generators are removed once expanded.
\<close>

definition run_generators :: "(string \<times> pyval) list \<Rightarrow> error + (string \<times> pyval) list" where
  "run_generators configuration =
     foldE (\<lambda>key_and_generator_key configuration.
              (let key = fst key_and_generator_key; generator_key = snd key_and_generator_key
               in case map_of configuration generator_key of
                    None \<Rightarrow> Inr configuration
                  | Some generators \<Rightarrow>
                      bindE (py_iter generators)
                        (\<lambda>gs. bindE (foldE (run_generator key) gs configuration)
                           (\<lambda>configuration. Inr (AList.delete generator_key configuration)))))
       [(''filters'', ''filters-generators''), (''tasks'', ''tasks-generators''),
        (''jobs'', ''jobs-generators'')]
       configuration"

subsection \<open>Comparing parameters (lines 259-262)\<close>

text \<open>
  \<^verbatim>\<open>json.dumps(value, sort_keys=True, separators=(",", ":"))\<close>, character by character:
  strings in double quotes with the escapes of the default ASCII-only encoder (two-character
  escapes for the quote, the backslash and five control characters, \<^verbatim>\<open>\u00xx\<close> for every
  other code point outside the printable ASCII range), integers in decimal, the items of
  a list and of a table separated by commas, a table's items ordered by key.
\<close>

definition json_char :: "char \<Rightarrow> string" where
  "json_char c =
     (if c = CHR 0x22 then [CHR 0x5C, CHR 0x22]
      else if c = CHR 0x5C then [CHR 0x5C, CHR 0x5C]
      else if c = CHR 0x08 then [CHR 0x5C, CHR ''b'']
      else if c = CHR 0x0C then [CHR 0x5C, CHR ''f'']
      else if c = CHR 0x0A then [CHR 0x5C, CHR ''n'']
      else if c = CHR 0x0D then [CHR 0x5C, CHR ''r'']
      else if c = CHR 0x09 then [CHR 0x5C, CHR ''t'']
      else if 32 \<le> (of_char c :: nat) \<and> (of_char c :: nat) \<le> 126 then [c]
      else [CHR 0x5C, CHR ''u'', CHR ''0'', CHR ''0'',
            hex_digit (of_char c div 16), hex_digit (of_char c mod 16)])"

definition json_string :: "string \<Rightarrow> string" where
  "json_string s = CHR 0x22 # concat (map json_char s) @ [CHR 0x22]"

fun json_dumps :: "pyval \<Rightarrow> string" where
  "json_dumps PNone = ''null''"
| "json_dumps (PBool b) = (if b then ''true'' else ''false'')"
| "json_dumps (PInt i) = str_int i"
| "json_dumps (PStr s) = json_string s"
| "json_dumps (PList xs) = ''['' @ join '','' (map json_dumps xs) @ '']''"
| "json_dumps (PDict kvs) =
     ''{'' @ join '',''
        (map (\<lambda>kv. json_string (fst kv) @ '':'' @ json_dumps (snd kv)) (sort_key fst kvs)) @ ''}''"

text \<open>
  Lines 259-262.
\<close>

definition compare_parameters :: "pyval \<Rightarrow> pyval \<Rightarrow> bool" where
  "compare_parameters a b = (json_dumps a = json_dumps b)"

text \<open>
  Deep equality up to the order of keys, stated without reference to any serialisation:
  scalars are equal, lists are equal element for element in order, and two tables hold
  the same keys with deeply equal values under each key.
\<close>

fun deep_equal :: "pyval \<Rightarrow> pyval \<Rightarrow> bool" where
  "deep_equal PNone PNone = True"
| "deep_equal (PBool a) (PBool b) = (a = b)"
| "deep_equal (PInt a) (PInt b) = (a = b)"
| "deep_equal (PStr a) (PStr b) = (a = b)"
| "deep_equal (PList xs) (PList ys) =
     list_all2 deep_equal xs ys"
| "deep_equal (PDict xs) (PDict ys) =
     ((\<forall>kv \<in> set xs. \<exists>kw \<in> set ys. fst kv = fst kw \<and> deep_equal (snd kv) (snd kw)) \<and>
      (\<forall>kw \<in> set ys. \<exists>kv \<in> set xs. fst kv = fst kw \<and> deep_equal (snd kv) (snd kw)))"
| "deep_equal a b = False"

text \<open>
  The keys of every table, at every depth, are distinct.
\<close>

fun well_formed :: "pyval \<Rightarrow> bool" where
  "well_formed (PList xs) = list_all well_formed xs"
| "well_formed (PDict kvs) = (distinct (map fst kvs) \<and> list_all (\<lambda>kv. well_formed (snd kv)) kvs)"
| "well_formed v = True"

text \<open>
  Used in the proof that the serialisation can be read back in one way only: the text
  after a serialised value does not start with a digit, and the first character of a
  serialised value tells which kind of value it is.
\<close>

definition no_digit_ahead :: "string \<Rightarrow> bool" where
  "no_digit_ahead r = (case r of [] \<Rightarrow> True | c # _ \<Rightarrow> \<not> is_decimal c)"

fun value_tag :: "pyval \<Rightarrow> nat" where
  "value_tag PNone = 0"
| "value_tag (PBool b) = 1"
| "value_tag (PInt i) = 2"
| "value_tag (PStr s) = 3"
| "value_tag (PList xs) = 4"
| "value_tag (PDict kvs) = 5"

definition char_tag :: "char \<Rightarrow> nat" where
  "char_tag c =
     (if c = CHR ''n'' then 0
      else if c = CHR ''t'' \<or> c = CHR ''f'' then 1
      else if c = CHR ''-'' \<or> is_decimal c then 2
      else if c = CHR 0x22 then 3
      else if c = CHR ''['' then 4
      else if c = CHR ''{'' then 5
      else 6)"

subsection \<open>The validated configuration\<close>

text \<open>
  The configuration after expansion, schema validation and the regrouping of lines 635-659
  (every key of a filter or task other than \<^verbatim>\<open>type\<close>, \<^verbatim>\<open>icon\<close> and \<^verbatim>\<open>suffix\<close> moved into
  \<^verbatim>\<open>parameters\<close>). The schema file is not part of the sources; the field types are those
  the script relies on. A job's \<^verbatim>\<open>tasks\<close> key may be absent (line 606 tests for it). The
  attachments stay a table from job names to values (each a list of tables with
  \<^verbatim>\<open>source\<close> and \<^verbatim>\<open>target\<close>), because the script iterates over it in two different ways.
\<close>

record filter_spec =
  filter_type :: string
  filter_icon :: string
  filter_suffix :: string
  filter_parameters :: pyval

record task_spec =
  task_type :: string
  task_icon :: string
  task_parameters :: pyval

record job =
  job_name :: string
  job_begin :: string
  job_end :: string
  job_filters :: "string list"
  job_tasks :: "string list option"

record configuration =
  directory :: string
  filters :: "(string \<times> filter_spec) list"
  tasks :: "(string \<times> task_spec) list"
  jobs :: "job list"
  sources :: "(string \<times> string) list"
  attachments :: "(string \<times> pyval) list"

subsection \<open>Semantic validation (lines 600-634)\<close>

text \<open>
  \<^verbatim>\<open>value in table\<close> for a table with string keys: only a string can be one of the keys.
\<close>

definition py_in_keys :: "pyval \<Rightarrow> (string \<times> 'a) list \<Rightarrow> bool" where
  "py_in_keys v d = (case v of PStr s \<Rightarrow> s \<in> set (map fst d) | _ \<Rightarrow> False)"

text \<open>
  Lines 608-618 for one pattern. The regular-expression engine is the parameter
  \<open>re_compile\<close>: it refuses a pattern (\<open>None\<close>, the exception \<^verbatim>\<open>re.error\<close>) or gives the
  predicate \<^verbatim>\<open>pattern.fullmatch(name) is not None\<close>. \<open>found\<close> is true when some task name
  matched. Line 615 is \<^verbatim>\<open>if not found in configuration["tasks"]\<close>, which Python reads as
  \<^verbatim>\<open>not (found in configuration["tasks"])\<close>.
\<close>

definition validate_task_pattern ::
    "(string \<Rightarrow> (string \<Rightarrow> bool) option) \<Rightarrow> configuration \<Rightarrow> job \<Rightarrow> string \<Rightarrow> string list
     \<Rightarrow> error + string list" where
  "validate_task_pattern re_compile configuration job task expanded_tasks =
     (case re_compile task of
        None \<Rightarrow> Inl (RegexError task)
      | Some fullmatch \<Rightarrow>
          (let matched = filter fullmatch (map fst (tasks configuration));
               found = (matched \<noteq> [])
           in if \<not> py_in_keys (PBool found) (tasks configuration)
              then Inl (UnmatchedTaskPattern task (job_name job))
              else Inr (expanded_tasks @ matched)))"

text \<open>
  Lines 601-630 for one job.
\<close>

definition validate_job ::
    "(string \<Rightarrow> (string \<Rightarrow> bool) option) \<Rightarrow> (string \<Rightarrow> int) \<Rightarrow> configuration \<Rightarrow> job \<Rightarrow> error + unit" where
  "validate_job re_compile round_fraction configuration job =
     (if job_name job \<notin> set (map fst (sources configuration))
      then Inl (NotListedInSources (job_name job))
      else bindE (foldE (\<lambda>f u. if f \<notin> set (map fst (filters configuration))
                              then Inl (UnknownFilter f (job_name job)) else Inr u)
                    (job_filters job) ())
        (\<lambda>u. bindE (case job_tasks job of
                      None \<Rightarrow> Inr []
                    | Some patterns \<Rightarrow> foldE (validate_task_pattern re_compile configuration job) patterns [])
        (\<lambda>expanded_tasks.
           case timecode round_fraction (job_begin job) of
             Inl e \<Rightarrow> Inl (InvalidTimecode ''begin'' (job_name job) e)
           | Inr b \<Rightarrow>
              (case timecode round_fraction (job_end job) of
                 Inl e \<Rightarrow> Inl (InvalidTimecode ''end'' (job_name job) e)
               | Inr e \<Rightarrow> Inr ()))))"

text \<open>
  Lines 631-634 for one entry of the attachments table: the targets of its files must be
  pairwise different.
\<close>

definition validate_attachments :: "string \<times> pyval \<Rightarrow> unit \<Rightarrow> error + unit" where
  "validate_attachments name_and_attachment u =
     bindE (py_iter (snd name_and_attachment))
       (\<lambda>files. bindE (mapE (\<lambda>file. getitem file ''target'') files)
       (\<lambda>targets. if length targets \<noteq> length (remdups targets)
                    then Inl (DuplicateAttachmentTarget (fst name_and_attachment)) else Inr ()))"

text \<open>
  Lines 600-634.
\<close>

definition validate ::
    "(string \<Rightarrow> (string \<Rightarrow> bool) option) \<Rightarrow> (string \<Rightarrow> int) \<Rightarrow> configuration \<Rightarrow> error + unit" where
  "validate re_compile round_fraction configuration =
     bindE (foldE (\<lambda>job u. validate_job re_compile round_fraction configuration job)
              (jobs configuration) ())
       (\<lambda>u. foldE validate_attachments (attachments configuration) ())"

subsection \<open>Job state, files and external calls\<close>

text \<open>
  The state record of a job, \<^verbatim>\<open>parameters\<close> in the script: the source and the three
  tables. The script adds a missing table as an empty one (lines 689-694), so a record
  without a table and a record with an empty one are the same record here.
\<close>

record parameters =
  p_source :: string
  p_filters :: "(string \<times> pyval) list"
  p_tasks :: "(string \<times> pyval) list"
  p_attachments :: "(string \<times> string) list"

text \<open>
  What a run does to the outside is kept as a trace: file copies, renames, calls of a
  filter (\<open>Apply\<close>: type, input, output, begin, end, parameters) and of a task (\<open>Run\<close>),
  and writes of the state document. \<open>world\<close> is the file system as far as the script
  looks at it: the regular files that exist, the content of the state documents, and the
  trace so far.
\<close>

datatype event =
    Copy string string
  | Rename string string
  | Apply string string string int int pyval
  | Run string string string int int pyval
  | Save string parameters

record world =
  files :: "string set"
  stored :: "(string \<times> parameters) list"
  trace :: "event list"

text \<open>
  What the script takes from outside: the force flag, whether an external call returns
  normally (\<open>external_ok\<close>; otherwise it raises), the table \<^verbatim>\<open>TASKS\<close> from task types to
  file extensions (the extensions are constants of modules that are not part of the sources)
  and the names of the scratch files (\<^verbatim>\<open>uuid.uuid4()\<close> inside a fresh temporary directory;
  \<open>scratch e i\<close> is the one made for the filter at index \<open>i\<close>).
\<close>

record env =
  args_force :: bool
  external_ok :: "event \<Rightarrow> bool"
  TASKS :: "(string \<times> string) list"
  scratch :: "nat \<Rightarrow> string"

text \<open>
  The keys of the table \<^verbatim>\<open>FILTERS\<close> (lines 90-93).
\<close>

definition FILTERS :: "string list" where
  "FILTERS = [''default'', ''arbiter_saturation'']"

text \<open>
  \<^verbatim>\<open>a / b\<close> for a relative \<open>b\<close>, and \<^verbatim>\<open>with_suffix\<close> of lines 242-243, which appends to
  the file name.
\<close>

definition path_join :: "string \<Rightarrow> string \<Rightarrow> string" where
  "path_join a b = a @ ''/'' @ b"

definition with_suffix :: "string \<Rightarrow> string \<Rightarrow> string" where
  "with_suffix path suffix = path @ suffix"

text \<open>
  \<^verbatim>\<open>shutil.copy2\<close> and \<^verbatim>\<open>Path.rename\<close> need their source to exist. An external call that
  returns has written its output file.
\<close>

definition copy2 :: "string \<Rightarrow> string \<Rightarrow> world \<Rightarrow> error + world" where
  "copy2 src dst w =
     (if src \<in> files w
      then Inr (w\<lparr>files := insert dst (files w), trace := trace w @ [Copy src dst]\<rparr>)
      else Inl (FileNotFoundError src))"

definition rename :: "string \<Rightarrow> string \<Rightarrow> world \<Rightarrow> error + world" where
  "rename src dst w =
     (if src \<in> files w
      then Inr (w\<lparr>files := insert dst (files w - {src}), trace := trace w @ [Rename src dst]\<rparr>)
      else Inl (FileNotFoundError src))"

definition external :: "env \<Rightarrow> event \<Rightarrow> string \<Rightarrow> world \<Rightarrow> error + world" where
  "external e call output w =
     (if external_ok e call
      then Inr (w\<lparr>files := insert output (files w), trace := trace w @ [call]\<rparr>)
      else Inl ExternalFailure)"

text \<open>
  Lines 246-256. \<open>save_parameters\<close> writes a temporary document and renames it over the
  state document; only the result is modelled. Reading back what was written gives the
  record that was written.
\<close>

definition load_parameters :: "string \<Rightarrow> world \<Rightarrow> parameters option" where
  "load_parameters path w = (if path \<in> files w then map_of (stored w) path else None)"

definition save_parameters :: "string \<Rightarrow> parameters \<Rightarrow> world \<Rightarrow> world" where
  "save_parameters path p w =
     w\<lparr>files := insert path (files w), stored := AList.update path p (stored w),
       trace := trace w @ [Save path p]\<rparr>"

text \<open>
  Lines 683-694: the stored record is kept when its source is the configured one;
  otherwise a fresh record is made and saved.
\<close>

definition start_parameters :: "string \<Rightarrow> string \<Rightarrow> world \<Rightarrow> parameters \<times> world" where
  "start_parameters parameters_path source w =
     (let fresh = \<lparr>p_source = source, p_filters = [], p_tasks = [], p_attachments = []\<rparr>
      in case load_parameters parameters_path w of
           None \<Rightarrow> (fresh, save_parameters parameters_path fresh w)
         | Some p \<Rightarrow> if p_source p \<noteq> source then (fresh, save_parameters parameters_path fresh w)
                      else (p, w))"

subsection \<open>Running a job (lines 667-803)\<close>

text \<open>
  Lines 696-713, the body of the attachment loop, for whatever value the loop variable
  holds. Both branches read \<^verbatim>\<open>attachment["source"]\<close> and \<^verbatim>\<open>attachment["target"]\<close> for
  their message; source and target are strings under the schema.
\<close>

definition attachment_step :: "env \<Rightarrow> string \<Rightarrow> pyval \<Rightarrow> parameters \<times> world \<Rightarrow> error + parameters \<times> world" where
  "attachment_step e target_directory attachment pw =
     (let p = fst pw; w = snd pw in
      bindE (if args_force e then Inr False
             else bindE (bindE (getitem attachment ''target'') as_str)
                    (\<lambda>target. Inr (target \<in> set (map fst (p_attachments p))
                                   \<and> path_join target_directory target \<in> files w)))
        (\<lambda>skip.
           bindE (bindE (getitem attachment ''source'') as_str) (\<lambda>source.
           bindE (bindE (getitem attachment ''target'') as_str) (\<lambda>target.
           bindE (if skip then Inr w
                  else bindE (copy2 source (with_suffix (path_join target_directory target) ''.part'') w)
                         (rename (with_suffix (path_join target_directory target) ''.part'')
                            (path_join target_directory target)))
             (\<lambda>w. Inr (p\<lparr>p_attachments := AList.update target source (p_attachments p)\<rparr>, w))))))"

text \<open>
  Line 695: \<^verbatim>\<open>for attachment in configuration["attachments"]\<close> iterates over the table
  itself, that is, over its keys.
\<close>

definition run_attachments :: "env \<Rightarrow> configuration \<Rightarrow> string \<Rightarrow> parameters \<times> world \<Rightarrow> error + parameters \<times> world" where
  "run_attachments e configuration target_directory pw =
     bindE (py_iter (PDict (attachments configuration)))
       (\<lambda>items. foldE (attachment_step e target_directory) items pw)"

text \<open>
  The values computed at the head of the loop body (lines 668-682) that the stages use.
\<close>

record job_context =
  job_directory :: string
  output_path :: string
  parameters_path :: string
  source :: string
  begin_t :: int
  end_t :: int

text \<open>
  Lines 741-750: \<^verbatim>\<open>all(...)\<close> over the chain, stopping at the first filter without a
  matching snapshot.
\<close>

fun all_filters_match :: "configuration \<Rightarrow> parameters \<Rightarrow> string list \<Rightarrow> error + bool" where
  "all_filters_match configuration p [] = Inr True"
| "all_filters_match configuration p (filter_name # rest) =
     (case map_of (p_filters p) filter_name of
        None \<Rightarrow> Inr False
      | Some snapshot \<Rightarrow>
          (case map_of (filters configuration) filter_name of
             None \<Rightarrow> Inl (KeyError filter_name)
           | Some filter_entry \<Rightarrow>
               if compare_parameters snapshot (filter_parameters filter_entry)
               then all_filters_match configuration p rest
               else Inr False))"

text \<open>
  Lines 760-775: the loop over the chain, \<open>n\<close> the length of the chain, \<open>index\<close> the
  position and \<open>input\<close> the file the next filter reads.
\<close>

fun apply_chain :: "env \<Rightarrow> configuration \<Rightarrow> job_context \<Rightarrow> nat \<Rightarrow> nat \<Rightarrow> string list \<Rightarrow> string
    \<Rightarrow> parameters \<times> world \<Rightarrow> error + parameters \<times> world" where
  "apply_chain e configuration c n index [] input pw = Inr pw"
| "apply_chain e configuration c n index (filter_name # rest) input pw =
     (let output = (if index = n - 1 then with_suffix (output_path c) ''.part'' else scratch e index)
      in case map_of (filters configuration) filter_name of
           None \<Rightarrow> Inl (KeyError filter_name)
         | Some filter_entry \<Rightarrow>
             if filter_type filter_entry \<notin> set FILTERS then Inl (KeyError (filter_type filter_entry))
             else bindE (external e (Apply (filter_type filter_entry) input output (begin_t c) (end_t c)
                                      (filter_parameters filter_entry)) output (snd pw))
                    (\<lambda>w. apply_chain e configuration c n (Suc index) rest output
                           ((fst pw)\<lparr>p_filters := AList.update filter_name (filter_parameters filter_entry)
                                                      (p_filters (fst pw))\<rparr>, w)))"

text \<open>
  Leaving the \<^verbatim>\<open>with\<close> block of line 755 deletes the temporary directory and the scratch
  files in it.
\<close>

definition remove_scratch :: "env \<Rightarrow> nat \<Rightarrow> world \<Rightarrow> world" where
  "remove_scratch e n w = w\<lparr>files := files w - set (map (scratch e) [0..<n - 1])\<rparr>"

text \<open>
  Lines 714-777: one filter (lines 715-737) or any other number of filters (lines 739-777).
\<close>

definition run_filters :: "env \<Rightarrow> configuration \<Rightarrow> job \<Rightarrow> job_context \<Rightarrow> parameters \<times> world
    \<Rightarrow> error + parameters \<times> world" where
  "run_filters e configuration job c pw =
     (let p = fst pw; w = snd pw in
      if length (job_filters job) = 1 then
        (let filter_name = job_filters job ! 0 in
         case map_of (filters configuration) filter_name of
           None \<Rightarrow> Inl (KeyError filter_name)
         | Some filter_entry \<Rightarrow>
             if \<not> args_force e
                \<and> (case map_of (p_filters p) filter_name of
                      None \<Rightarrow> False
                    | Some snapshot \<Rightarrow> compare_parameters snapshot (filter_parameters filter_entry))
                \<and> output_path c \<in> files w
             then Inr (p, w)
             else if filter_type filter_entry \<notin> set FILTERS then Inl (KeyError (filter_type filter_entry))
             else bindE (external e (Apply (filter_type filter_entry) (source c)
                                      (with_suffix (output_path c) ''.part'') (begin_t c) (end_t c)
                                      (filter_parameters filter_entry))
                           (with_suffix (output_path c) ''.part'') w)
                 (\<lambda>w. bindE (rename (with_suffix (output_path c) ''.part'') (output_path c) w)
                 (\<lambda>w. let p = p\<lparr>p_filters := AList.update filter_name (filter_parameters filter_entry)
                                                 (p_filters p)\<rparr>
                       in Inr (p, save_parameters (parameters_path c) p w))))
      else
        bindE (if args_force e then Inr False
               else bindE (all_filters_match configuration p (job_filters job))
                      (\<lambda>m. Inr (m \<and> output_path c \<in> files w)))
          (\<lambda>skip.
             if skip then Inr (p, w)
             else bindE (apply_chain e configuration c (length (job_filters job)) 0
                           (job_filters job) (source c) (p, w))
                 (\<lambda>pw. bindE (rename (with_suffix (output_path c) ''.part'') (output_path c)
                                 (remove_scratch e (length (job_filters job)) (snd pw)))
                 (\<lambda>w. Inr (fst pw, save_parameters (parameters_path c) (fst pw) w)))))"

text \<open>
  Lines 779-803, the body of the task loop. The skip test looks at the filtered recording
  (\<^verbatim>\<open>output_path\<close>), not at the task's own output file.
\<close>

definition task_step :: "env \<Rightarrow> configuration \<Rightarrow> job_context \<Rightarrow> string \<Rightarrow> string \<Rightarrow> parameters \<times> world
    \<Rightarrow> error + parameters \<times> world" where
  "task_step e configuration c name task_name pw =
     (let p = fst pw; w = snd pw in
      case map_of (tasks configuration) task_name of
        None \<Rightarrow> Inl (KeyError task_name)
      | Some task \<Rightarrow>
         (case map_of (TASKS e) (task_type task) of
            None \<Rightarrow> Inl (KeyError (task_type task))
          | Some extension \<Rightarrow>
             (let task_output_path = path_join (job_directory c) (name @ ''-'' @ task_name @ extension) in
              if \<not> args_force e
                 \<and> (case map_of (p_tasks p) task_name of
                       None \<Rightarrow> False
                     | Some snapshot \<Rightarrow> compare_parameters snapshot (task_parameters task))
                 \<and> output_path c \<in> files w
              then Inr (p, w)
              else bindE (external e (Run (task_type task) (output_path c)
                                       (with_suffix task_output_path ''.part'') (begin_t c) (end_t c)
                                       (task_parameters task))
                            (with_suffix task_output_path ''.part'') w)
                  (\<lambda>w. bindE (rename (with_suffix task_output_path ''.part'') task_output_path w)
                  (\<lambda>w. let p = p\<lparr>p_tasks := AList.update task_name (task_parameters task) (p_tasks p)\<rparr>
                        in Inr (p, save_parameters (parameters_path c) p w))))))"

text \<open>
  Line 778: the loop runs over \<^verbatim>\<open>job["tasks"]\<close>.
\<close>

definition run_tasks :: "env \<Rightarrow> configuration \<Rightarrow> job \<Rightarrow> job_context \<Rightarrow> string \<Rightarrow> parameters \<times> world
    \<Rightarrow> error + parameters \<times> world" where
  "run_tasks e configuration job c name pw =
     (case job_tasks job of
        None \<Rightarrow> Inl (KeyError ''tasks'')
      | Some task_names \<Rightarrow> foldE (task_step e configuration c name) task_names pw)"

text \<open>
  Lines 672-675.
\<close>

definition add_suffix :: "configuration \<Rightarrow> string \<Rightarrow> string \<Rightarrow> error + string" where
  "add_suffix configuration filter_name name =
     (case map_of (filters configuration) filter_name of
        None \<Rightarrow> Inl (KeyError filter_name)
      | Some filter_entry \<Rightarrow>
          if length (filter_suffix filter_entry) > 0 then Inr (name @ ''-'' @ filter_suffix filter_entry)
          else Inr name)"

text \<open>
  Lines 668-803 for one job. Creating directories is not modelled.
\<close>

definition run_job :: "env \<Rightarrow> (string \<Rightarrow> int) \<Rightarrow> configuration \<Rightarrow> job \<Rightarrow> world
    \<Rightarrow> error + parameters \<times> world" where
  "run_job e round_fraction configuration job w =
     bindE (timecode round_fraction (job_begin job)) (\<lambda>b.
     bindE (timecode round_fraction (job_end job)) (\<lambda>en.
     bindE (case map_of (sources configuration) (job_name job) of
              None \<Rightarrow> Inl (KeyError (job_name job)) | Some s \<Rightarrow> Inr s) (\<lambda>src.
     bindE (foldE (add_suffix configuration) (job_filters job)
              (job_name job @ ''-b'' @ timestamp_to_short_timecode b
                 @ ''-e'' @ timestamp_to_short_timecode en)) (\<lambda>name.
       (let c = \<lparr>job_directory = path_join (directory configuration) name,
                 output_path = path_join (path_join (directory configuration) name) (name @ ''.es''),
                 parameters_path = path_join (path_join (directory configuration) name) ''parameters.toml'',
                 source = src, begin_t = b, end_t = en\<rparr>
        in bindE (run_attachments e configuration (job_directory c)
                    (start_parameters (parameters_path c) src w))
             (\<lambda>pw. bindE (run_filters e configuration job c pw)
                      (run_tasks e configuration job c name)))))))"

text \<open>
  The \<^verbatim>\<open>run\<close> command from validation on (lines 600-807): all jobs in order, each on the
  files the one before left.
\<close>

definition run :: "env \<Rightarrow> (string \<Rightarrow> (string \<Rightarrow> bool) option) \<Rightarrow> (string \<Rightarrow> int) \<Rightarrow> configuration \<Rightarrow> world
    \<Rightarrow> error + world" where
  "run e re_compile round_fraction configuration w =
     bindE (validate re_compile round_fraction configuration)
       (\<lambda>u. foldE (\<lambda>job w. bindE (run_job e round_fraction configuration job w) (\<lambda>pw. Inr (snd pw)))
              (jobs configuration) w)"

subsection \<open>Notions the properties are stated with\<close>

text \<open>
  The value found by following a path of keys through nested tables.
\<close>

fun lookup_path :: "pyval \<Rightarrow> string list \<Rightarrow> pyval option" where
  "lookup_path v [] = Some v"
| "lookup_path (PDict d) (k # ks) = (case map_of d k of None \<Rightarrow> None | Some x \<Rightarrow> lookup_path x ks)"
| "lookup_path v (k # ks) = None"

text \<open>
  A filter of the chain is up to date when the state holds a snapshot for it that compares
  equal to its configured parameters; the chain is up to date when force is not set, every
  filter of it is up to date and the final artifact exists.
\<close>

definition snapshot_matches :: "configuration \<Rightarrow> parameters \<Rightarrow> string \<Rightarrow> bool" where
  "snapshot_matches configuration p filter_name =
     (case map_of (p_filters p) filter_name of
        None \<Rightarrow> False
      | Some snapshot \<Rightarrow>
          (case map_of (filters configuration) filter_name of
             None \<Rightarrow> False
           | Some filter_entry \<Rightarrow> compare_parameters snapshot (filter_parameters filter_entry)))"

definition chain_up_to_date :: "env \<Rightarrow> configuration \<Rightarrow> job \<Rightarrow> job_context \<Rightarrow> parameters \<times> world \<Rightarrow> bool" where
  "chain_up_to_date e configuration job c pw =
     (\<not> args_force e
      \<and> list_all (snapshot_matches configuration (fst pw)) (job_filters job)
      \<and> output_path c \<in> files (snd pw))"

text \<open>
  The invocations a full run of the chain makes, by position: the filter at position 0
  reads the source, the one at position \<open>i > 0\<close> reads scratch file \<open>i - 1\<close>; the last one
  writes the temporary name of the final artifact, every other one its own scratch file.
  \<open>record_chain\<close> is the state after the snapshots of all filters were recorded.
\<close>

definition chain_call :: "env \<Rightarrow> job_context \<Rightarrow> filter_spec list \<Rightarrow> nat \<Rightarrow> event" where
  "chain_call e c specs i =
     Apply (filter_type (specs ! i))
       (if i = 0 then source c else scratch e (i - 1))
       (if i = length specs - 1 then with_suffix (output_path c) ''.part'' else scratch e i)
       (begin_t c) (end_t c) (filter_parameters (specs ! i))"

definition chain_invocations :: "env \<Rightarrow> job_context \<Rightarrow> filter_spec list \<Rightarrow> event list" where
  "chain_invocations e c specs = map (chain_call e c specs) [0..<length specs]"

definition record_chain :: "(string \<times> filter_spec) list \<Rightarrow> parameters \<Rightarrow> parameters" where
  "record_chain named_specs p =
     p\<lparr>p_filters := fold (\<lambda>ns. AList.update (fst ns) (filter_parameters (snd ns))) named_specs (p_filters p)\<rparr>"

subsection \<open>Example configurations\<close>

text \<open>
  For a pattern without special characters a full match is equality. \<open>all_ok\<close> is a run
  without force in which every external call succeeds.
\<close>

definition literal_regex :: "string \<Rightarrow> (string \<Rightarrow> bool) option" where
  "literal_regex pattern = Some (\<lambda>s. s = pattern)"

definition all_ok :: env where
  "all_ok = \<lparr>args_force = False, external_ok = (\<lambda>_. True),
     TASKS = [(''colourtime'', ''.png''), (''event_rate'', ''.svg''), (''video'', ''.mp4'')],
     scratch = (\<lambda>i. ''/tmp/scratch/'' @ str_nat i @ ''.es'')\<rparr>"


definition C7_configuration :: "string \<Rightarrow> (string \<times> pyval) list" where
  "C7_configuration key =
     [(key, PDict []),
      (key @ ''-generators'', PList [PDict
         [(''parameters'', PDict [(''threshold'', PList [PInt 1, PInt 5, PInt 10])]),
          (''template'', PDict [(''name'', PStr ''as-@threshold''), (''suffix'', PStr ''as@threshold'')])]])]"

definition C8_configuration :: "string \<Rightarrow> string \<Rightarrow> (string \<times> pyval) list" where
  "C8_configuration pre post =
     [(''filters'', PDict []),
      (''filters-generators'', PList [PDict
         [(''parameters'', PDict [(''threshold'', PList [PInt 1]), (''threshold10'', PList [PInt 99])]),
          (''template'', PDict [(''name'', PStr ''n-@threshold10''),
                                (''suffix'', PStr (pre @ ''@threshold10'' @ post))])]])]"

definition C10_template :: pyval where
  "C10_template = PDict [(''name'', PStr ''job-@threshold''), (''begin'', PStr ''@threshold''),
     (''filters'', PList [PStr ''arbiter-saturation-@threshold'', PStr ''@raw(threshold)''])]"

definition C10_entry :: pyval where
  "C10_entry = PDict [(''name'', PStr ''job-5''), (''begin'', PStr ''5''),
     (''filters'', PList [PStr ''arbiter-saturation-@threshold'', PStr ''@raw(threshold)''])]"

definition C10_generator :: pyval where
  "C10_generator = PDict
     [(''parameters'', PDict [(''threshold'', PList [PInt 1, PInt 5])]),
      (''template'', C10_template)]"



definition C1_configuration :: configuration where
  "C1_configuration = \<lparr>directory = ''renders'',
     filters = [(''default'', \<lparr>filter_type = ''default'', filter_icon = ''i'', filter_suffix = '''',
                               filter_parameters = PDict []\<rparr>)],
     tasks = [(''video'', \<lparr>task_type = ''video'', task_icon = ''v'', task_parameters = PDict []\<rparr>)],
     jobs = [\<lparr>job_name = ''cat'', job_begin = ''0'', job_end = ''1'',
              job_filters = [''default''], job_tasks = Some [''video'']\<rparr>],
     sources = [(''cat'', ''cat.es'')],
     attachments = []\<rparr>"

definition C2_configuration :: configuration where
  "C2_configuration = \<lparr>directory = ''renders'',
     filters = [(''default'', \<lparr>filter_type = ''default'', filter_icon = ''i'', filter_suffix = [],
                               filter_parameters = PDict []\<rparr>)],
     tasks = [(''colourtime-viridis'', \<lparr>task_type = ''colourtime'', task_icon = ''c'',
                 task_parameters = PDict [(''colormap'', PStr ''viridis'')]\<rparr>),
              (''colourtime-prism'', \<lparr>task_type = ''colourtime'', task_icon = ''c'',
                 task_parameters = PDict [(''colormap'', PStr ''prism'')]\<rparr>)],
     jobs = [\<lparr>job_name = ''cat'', job_begin = ''0'', job_end = ''1'',
              job_filters = [''default''], job_tasks = Some [''colourtime-.+'']\<rparr>],
     sources = [(''cat'', ''cat.es'')],
     attachments = []\<rparr>"

definition C3_configuration :: configuration where
  "C3_configuration = C1_configuration\<lparr>
     jobs := [\<lparr>job_name = ''cat'', job_begin = ''0'', job_end = ''1'',
               job_filters = [''default''], job_tasks = Some []\<rparr>],
     attachments := [(''cat'', PList [PDict [(''source'', PStr ''cat.txt''), (''target'', PStr ''cat.txt'')]])]\<rparr>"

definition C3_world :: world where
  "C3_world = \<lparr>files = {''cat.es'', ''cat.txt''}, stored = [], trace = []\<rparr>"

definition C4_attachment :: pyval where
  "C4_attachment = PDict [(''source'', PStr ''cat.txt''), (''target'', PStr ''notes.txt'')]"

definition C4_parameters :: parameters where
  "C4_parameters = \<lparr>p_source = ''cat.es'', p_filters = [], p_tasks = [], p_attachments = []\<rparr>"

definition C4_world :: world where
  "C4_world = \<lparr>files = {''cat.es'', ''cat.txt'', ''renders/cat/parameters.toml''},
     stored = [(''renders/cat/parameters.toml'', C4_parameters)], trace = []\<rparr>"

definition C5_default :: filter_spec where
  "C5_default = \<lparr>filter_type = ''default'', filter_icon = ''d'', filter_suffix = [],
                  filter_parameters = PDict []\<rparr>"

definition C5_saturation :: "int \<Rightarrow> filter_spec" where
  "C5_saturation threshold = \<lparr>filter_type = ''arbiter_saturation'', filter_icon = ''a'',
     filter_suffix = ''as5'', filter_parameters = PDict [(''threshold'', PInt threshold)]\<rparr>"

definition C5_configuration :: configuration where
  "C5_configuration = \<lparr>directory = ''renders'',
     filters = [(''default'', C5_default), (''as-5'', C5_saturation 5)],
     tasks = [], jobs = [], sources = [(''cat'', ''cat.es'')], attachments = []\<rparr>"

definition C5_job :: job where
  "C5_job = \<lparr>job_name = ''cat'', job_begin = ''0'', job_end = ''1'',
     job_filters = [''default'', ''as-5''], job_tasks = Some []\<rparr>"

definition C5_context :: job_context where
  "C5_context = \<lparr>job_directory = ''renders/cat'', output_path = ''renders/cat/cat.es'',
     parameters_path = ''renders/cat/parameters.toml'', source = ''cat.es'', begin_t = 0, end_t = 1\<rparr>"

definition C5_parameters :: "int \<Rightarrow> parameters" where
  "C5_parameters threshold = \<lparr>p_source = ''cat.es'',
     p_filters = [(''default'', PDict []), (''as-5'', PDict [(''threshold'', PInt threshold)])],
     p_tasks = [], p_attachments = []\<rparr>"

definition C5_world :: world where
  "C5_world = \<lparr>files = {''cat.es'', ''renders/cat/cat.es'', ''renders/cat/parameters.toml''},
     stored = [(''renders/cat/parameters.toml'', C5_parameters 1)], trace = []\<rparr>"

section \<open>Properties\<close>

subsection \<open>Timecode round trip\<close>

text \<open>
  Formatting writes digits only between its separators, and reading a run of digits that
  was printed from a number gives the number back, leading zeros or not.
\<close>

lemma digit_val_digit_char: "d < 10 \<Longrightarrow> digit_val (digit_char d) = d"
  by (simp add: digit_val_def digit_char_def)

lemma is_decimal_digit_char: "d < 10 \<Longrightarrow> is_decimal (digit_char d)"
  by (simp add: is_decimal_def digit_char_def)

lemma str_nat_decimal: "list_all is_decimal (str_nat n)"
  by (induction n rule: str_nat.induct) (subst str_nat.simps, simp add: is_decimal_digit_char)

lemma str_nat_nonempty: "str_nat n \<noteq> []"
  by (subst str_nat.simps) simp

lemma int_of_decimal_snoc: "int_of_decimal (s @ [c]) = 10 * int_of_decimal s + digit_val c"
  by (simp add: int_of_decimal_def)

lemma int_of_decimal_str_nat: "int_of_decimal (str_nat n) = n"
proof (induction n rule: str_nat.induct)
  case (1 n)
  show ?case
  proof (cases "n < 10")
    case True
    then show ?thesis
      by (subst str_nat.simps) (simp add: int_of_decimal_def digit_val_digit_char)
  next
    case False
    with 1 have "int_of_decimal (str_nat (n div 10)) = n div 10" by simp
    with False show ?thesis
      by (subst str_nat.simps) (simp add: int_of_decimal_snoc digit_val_digit_char)
  qed
qed

lemma int_of_decimal_zeros: "int_of_decimal (replicate k CHR ''0'' @ s) = int_of_decimal s"
proof -
  have "foldl (\<lambda>a c. 10 * a + digit_val c) 0 (replicate k CHR ''0'') = 0"
    by (induction k) (simp_all add: digit_val_def)
  then show ?thesis by (simp add: int_of_decimal_def)
qed

lemma length_str_nat: "0 < k \<Longrightarrow> n < 10 ^ k \<Longrightarrow> length (str_nat n) \<le> k"
proof (induction n arbitrary: k rule: str_nat.induct)
  case (1 n)
  show ?case
  proof (cases "n < 10")
    case True
    with 1(2) show ?thesis by (subst str_nat.simps) simp
  next
    case False
    then obtain j where k: "k = Suc j" using 1(2) by (cases k) auto
    have "0 < j" using False 1(3) k by (cases j) auto
    moreover have "n div 10 < 10 ^ j" using 1(3) k by (simp add: less_mult_imp_div_less mult.commute)
    ultimately have "length (str_nat (n div 10)) \<le> j" using 1(1) False by simp
    with False k show ?thesis by (subst str_nat.simps) simp
  qed
qed

lemma list_all_decimal_zeros: "list_all is_decimal (replicate k CHR ''0'')"
  by (induction k) (simp_all add: is_decimal_def)

lemma length_zfill: "length (zfill w s) = max w (length s)"
  by (simp add: zfill_def)

lemma format_0d_nonneg:
  assumes "0 \<le> i"
  shows "list_all is_decimal (format_0d w i)" and "format_0d w i \<noteq> []"
    and "int (int_of_decimal (format_0d w i)) = i"
  using assms
  by (simp_all add: format_0d_def zfill_def str_nat_decimal str_nat_nonempty
      int_of_decimal_zeros int_of_decimal_str_nat list_all_decimal_zeros)

lemma length_format_0d_6:
  assumes "0 \<le> i" "i < 1000000"
  shows "length (format_0d 6 i) = 6"
proof -
  have "nat i < 10 ^ 6" using assms by simp
  then have "length (str_nat (nat i)) \<le> 6" by (intro length_str_nat) simp_all
  with assms show ?thesis by (simp add: format_0d_def length_zfill)
qed

lemma takeWhile_decimal_stop:
  assumes "list_all is_decimal ds" "\<not> is_decimal c"
  shows "takeWhile is_decimal (ds @ c # r) = ds" and "dropWhile is_decimal (ds @ c # r) = c # r"
  using assms by (induction ds) simp_all

lemma takeWhile_decimal_all:
  assumes "list_all is_decimal ds"
  shows "takeWhile is_decimal ds = ds" and "dropWhile is_decimal ds = []"
  using assms by (induction ds) simp_all

lemma TIMECODE_PATTERN_formatted:
  assumes "list_all is_decimal a" "a \<noteq> []" "list_all is_decimal b" "b \<noteq> []"
    "list_all is_decimal c" "c \<noteq> []" "list_all is_decimal d" "d \<noteq> []"
  shows "TIMECODE_PATTERN (a @ '':'' @ b @ '':'' @ c @ ''.'' @ d) = Some (a, b, c, Some d)"
proof -
  have colon: "\<not> is_decimal CHR '':''" and dot: "\<not> is_decimal CHR ''.''"
    by (simp_all add: is_decimal_def)
  show ?thesis
    using assms
    by (simp add: TIMECODE_PATTERN_def takeWhile_decimal_stop colon dot takeWhile_decimal_all
        at_end_def Ball_set)
qed

lemma not_isdigit_colon: "\<not> isdigit (a @ '':'' @ r)"
  by (simp add: isdigit_def py_isdigit_char_def is_decimal_def)

lemma timecode_roundtrip_nonneg:
  assumes "0 \<le> t"
  shows "timecode round_fraction (timestamp_to_timecode t) = Inr t"
proof -
  define hours where "hours = t div 3600000000"
  define t1 where "t1 = t - hours * 3600000000"
  define minutes where "minutes = t1 div 60000000"
  define t2 where "t2 = t1 - minutes * 60000000"
  define seconds where "seconds = t2 div 1000000"
  define t3 where "t3 = t2 - seconds * 1000000"
  have t1: "t1 = t mod 3600000000" unfolding t1_def hours_def by (simp add: minus_div_mult_eq_mod)
  have t2: "t2 = t1 mod 60000000" unfolding t2_def minutes_def by (simp add: minus_div_mult_eq_mod)
  have t3: "t3 = t2 mod 1000000" unfolding t3_def seconds_def by (simp add: minus_div_mult_eq_mod)
  have nonneg: "0 \<le> hours" "0 \<le> minutes" "0 \<le> seconds" "0 \<le> t3" "t3 < 1000000"
    using assms by (simp_all add: hours_def minutes_def seconds_def t1 t2 t3)
  have sum: "hours * 3600000000 + minutes * 60000000 + seconds * 1000000 + t3 = t"
    unfolding t3_def t2_def t1_def by simp
  have fmt: "timestamp_to_timecode t = format_0d 2 hours @ '':'' @ format_0d 2 minutes @ '':''
      @ format_0d 2 seconds @ ''.'' @ format_0d 6 t3"
    unfolding timestamp_to_timecode_def Let_def hours_def t1_def minutes_def t2_def seconds_def t3_def
    by (simp add: mult.commute)
  have m: "TIMECODE_PATTERN (timestamp_to_timecode t)
      = Some (format_0d 2 hours, format_0d 2 minutes, format_0d 2 seconds, Some (format_0d 6 t3))"
    unfolding fmt using nonneg by (intro TIMECODE_PATTERN_formatted format_0d_nonneg) simp_all
  have nd: "\<not> isdigit (timestamp_to_timecode t)"
    unfolding fmt by (rule not_isdigit_colon)
  show ?thesis
    unfolding timecode_def using nd m nonneg sum
    by (simp add: format_0d_nonneg length_format_0d_6)
qed
text \<open>
  Claim C9. For every integer \<open>t\<close> with \<open>0 \<le> t < 10\<^sup>1\<^sup>2\<close>, parsing the fixed-width
  timecode that \<open>timestamp_to_timecode\<close> produces gives \<open>t\<close> back:
  \<open>timecode (timestamp_to_timecode t) = t\<close>. The formatted text always carries a
  six-digit fraction, so the floating-point branch of the parser (abstracted by
  \<open>round_fraction\<close>) is never taken.
\<close>

theorem timecode_roundtrip:
  assumes "0 \<le> t" and "t < 10 ^ 12"
  shows "timecode round_fraction (timestamp_to_timecode t) = Inr t"
  using assms(1) by (rule timecode_roundtrip_nonneg)

theorem timecode_roundtrip_witness:
  "(0::int) \<le> 20000 \<and> (20000::int) < 10 ^ 12
   \<and> timecode (\<lambda>fraction_string. 0) (timestamp_to_timecode 20000) = Inr 20000"
  using timecode_roundtrip [of 20000 "\<lambda>fraction_string. 0"] by simp

subsection \<open>Generator expansion\<close>

text \<open>
  Replacement leaves a text without the first character of the placeholder alone, and
  skips over such a text in front of a placeholder. Substitution keeps every list it meets.
\<close>

lemma replace_from_absent:
  assumes "c0 \<notin> set s"
  shows "replace_from (c0 # r) new s = s"
  using assms by (induction s) auto

lemma replace_from_skip:
  assumes "c0 \<notin> set pre"
  shows "replace_from (c0 # r) new (pre @ s) = pre @ replace_from (c0 # r) new s"
  using assms by (induction pre) auto

lemma replace_from_hit:
  "replace_from (c0 # r) new ((c0 # r) @ post) = new @ replace_from (c0 # r) new post"
  by simp

lemma replace_placeholder:
  assumes "CHR ''@'' \<notin> set pre" "CHR ''@'' \<notin> set post"
  shows "replace (CHR ''@'' # nm) new (pre @ (CHR ''@'' # nm) @ post) = pre @ new @ post"
proof -
  have "replace_from (CHR ''@'' # nm) new (pre @ (CHR ''@'' # nm) @ post)
      = pre @ replace_from (CHR ''@'' # nm) new ((CHR ''@'' # nm) @ post)"
    using assms(1) by (rule replace_from_skip)
  also have "\<dots> = pre @ new @ replace_from (CHR ''@'' # nm) new post"
    by (simp only: replace_from_hit)
  also have "\<dots> = pre @ new @ post"
    using assms(2) by (simp add: replace_from_absent)
  finally show ?thesis by (simp add: replace_def)
qed

lemma replace_absent:
  assumes "CHR ''@'' \<notin> set s"
  shows "replace (CHR ''@'' # nm) new s = s"
  using assms by (simp add: replace_def replace_from_absent)

lemma sorted_names: "parameters_names_and_values
   [(''threshold'', a), (''threshold10'', b)] = [(''threshold10'', b), (''threshold'', a)]"
  by (simp add: parameters_names_and_values_def)

lemma descending:
  "sorted_wrt (\<lambda>a b. length (fst a) \<ge> length (fst b)) (parameters_names_and_values items)"
proof -
  have "sorted (map (\<lambda>kv. - int (length (fst kv))) (parameters_names_and_values items))"
    unfolding parameters_names_and_values_def by (rule sorted_sort_key)
  then show ?thesis
    by (simp add: sorted_map sorted_wrt_iff_nth_less)
qed

lemma c8_run:
  assumes "CHR ''@'' \<notin> set pre" "CHR ''@'' \<notin> set post"
  shows "run_generators (C8_configuration pre post)
     = Inr [(''filters'', PDict [(''n-99'', PDict [(''suffix'', PStr (pre @ ''99'' @ post))])])]"
proof -
  define s where "s = pre @ ''@threshold10'' @ post"
  define s' where "s' = pre @ ''99'' @ post"
  have ne1: "s \<noteq> ''@raw(threshold10)''"
    using assms(1) unfolding s_def by (cases pre) auto
  have s1: "replace ''@threshold10'' ''99'' s = s'"
    unfolding s_def s'_def using replace_placeholder [OF assms, of "''threshold10''" "''99''"] by simp
  have noat: "CHR ''@'' \<notin> set s'" using assms by (simp add: s'_def)
  then have ne2: "s' \<noteq> ''@raw(threshold)''" by auto
  have s2: "replace ''@threshold'' ''1'' s' = s'"
    using replace_absent [OF noat, of "''threshold''" "''1''"] by simp
  have n1: "replace ''@threshold10'' ''99'' ''n-@threshold10'' = ''n-99''" by code_simp
  have n2: "replace ''@threshold'' ''1'' ''n-99'' = ''n-99''" by code_simp
  have str: "py_str (PInt 99) = ''99''" "py_str (PInt 1) = ''1''" by code_simp+
  have "run_generators
     [(''filters'', PDict []),
      (''filters-generators'', PList [PDict
         [(''parameters'', PDict [(''threshold'', PList [PInt 1]), (''threshold10'', PList [PInt 99])]),
          (''template'', PDict [(''name'', PStr ''n-@threshold10''), (''suffix'', PStr s)])]])]
     = Inr [(''filters'', PDict [(''n-99'', PDict [(''suffix'', PStr s')])])]"
    unfolding run_generators_def
    by (simp add: bindE_def py_iter_def run_generator_def getitem_def dict_items_def py_len_def
       sorted_names zip_values_def generate_entry_def substitute_def insert_entry_def Let_def
       template_name_def ne1 ne2 s1 s2 n1 n2 str)
  then show ?thesis unfolding C8_configuration_def s_def s'_def .
qed

lemma map_of_recursive_replace_list:
  "map_of template k = Some (PList xs) \<Longrightarrow> map_of (recursive_replace template n v) k = Some (PList xs)"
  by (induction template n v rule: recursive_replace.induct) (auto split: if_splits)

lemma map_of_recursive_replace_dict:
  "map_of template k = Some (PDict d) \<Longrightarrow>
   map_of (recursive_replace template n v) k = Some (PDict (recursive_replace d n v))"
  by (induction template n v rule: recursive_replace.induct) (auto split: if_splits)

lemma lookup_path_recursive_replace:
  "lookup_path (PDict template) p = Some (PList xs) \<Longrightarrow>
   lookup_path (PDict (recursive_replace template n v)) p = Some (PList xs)"
proof (induction p arbitrary: template)
  case Nil
  then show ?case by simp
next
  case (Cons k ks)
  then obtain x where x: "map_of template k = Some x" "lookup_path x ks = Some (PList xs)"
    by (auto split: option.splits)
  show ?case
  proof (cases ks)
    case Nil
    with x have "x = PList xs" by simp
    with x Nil show ?thesis by (simp add: map_of_recursive_replace_list)
  next
    case (Cons k' ks')
    with x obtain d where d: "x = PDict d" by (cases x) auto
    with x Cons.IH [of d] have "lookup_path (PDict (recursive_replace d n v)) ks = Some (PList xs)"
      by simp
    with x d show ?thesis by (simp add: map_of_recursive_replace_dict)
  qed
qed

lemma substitute_keeps_lists:
  assumes "substitute key nv (nm, e) = Inr (nm', e')" "lookup_path e p = Some (PList xs)"
  shows "lookup_path e' p = Some (PList xs)"
  using assms
  by (cases e) (auto simp: substitute_def bindE_def dict_items_def Let_def
      lookup_path_recursive_replace split: if_splits sum.splits pyval.splits)

lemma foldE_substitute_keeps_lists:
  assumes "foldE (substitute key) nvs (nm, e) = Inr (nm', e')" "lookup_path e p = Some (PList xs)"
  shows "lookup_path e' p = Some (PList xs)"
  using assms
proof (induction nvs arbitrary: nm e)
  case Nil
  then show ?case by simp
next
  case (Cons nv nvs)
  then obtain nm1 e1 where st: "substitute key nv (nm, e) = Inr (nm1, e1)"
    and rest: "foldE (substitute key) nvs (nm1, e1) = Inr (nm', e')"
    by (auto simp: bindE_def split: sum.splits)
  from st Cons.prems(2) have "lookup_path e1 p = Some (PList xs)" by (rule substitute_keeps_lists)
  with rest show ?case by (rule Cons.IH)
qed

lemma lookup_path_delete:
  assumes "lookup_path (PDict d) p = Some (PList xs)" "take 1 p \<noteq> [k]"
  shows "lookup_path (PDict (AList.delete k d)) p = Some (PList xs)"
  using assms by (cases p) (auto simp: delete_conv' split: option.splits)

lemma generate_entry_keeps_lists:
  assumes "generate_entry key generator parameters_values = Inr (entry_name, entry)"
    and "getitem generator ''template'' = Inr template"
    and "lookup_path template p = Some (PList xs)"
    and "key = ''jobs'' \<or> take 1 p \<noteq> [''name'']"
  shows "lookup_path entry p = Some (PList xs)"
proof (cases "key = ''jobs''")
  case True
  with assms(1,2) have "foldE (substitute key) parameters_values (PNone, template) = Inr (entry_name, entry)"
    by (simp add: generate_entry_def bindE_def)
  then show ?thesis using assms(3) by (rule foldE_substitute_keeps_lists)
next
  case False
  with assms(1,2) obtain n d where d: "template = PDict d"
    and f: "foldE (substitute key) parameters_values (n, PDict (AList.delete ''name'' d)) = Inr (entry_name, entry)"
    by (auto simp: generate_entry_def bindE_def dict_items_def split: sum.splits pyval.splits)
  from False assms(3,4) d have "lookup_path (PDict (AList.delete ''name'' d)) p = Some (PList xs)"
    by (simp add: lookup_path_delete)
  with f show ?thesis by (rule foldE_substitute_keeps_lists)
qed

lemma expansion_filters:
  "run_generators (C7_configuration ''filters'') =
     Inr [(''filters'', PDict
       [(''as-1'', PDict [(''suffix'', PStr ''as1'')]),
        (''as-5'', PDict [(''suffix'', PStr ''as5'')]),
        (''as-10'', PDict [(''suffix'', PStr ''as10'')])])]"
  by code_simp

lemma expansion_tasks:
  "run_generators (C7_configuration ''tasks'') =
     Inr [(''tasks'', PDict
       [(''as-1'', PDict [(''suffix'', PStr ''as1'')]),
        (''as-5'', PDict [(''suffix'', PStr ''as5'')]),
        (''as-10'', PDict [(''suffix'', PStr ''as10'')])])]"
  by code_simp

text \<open>
  Claim C7. Expanding a generator with parameters \<open>{"threshold": [1, 5, 10]}\<close> and template
  \<open>{"name": "as-@threshold", "suffix": "as@threshold"}\<close> adds exactly three entries to the
  target collection, under the keys \<open>as-1\<close>, \<open>as-5\<close> and \<open>as-10\<close>, with suffixes
  \<open>as1\<close>, \<open>as5\<close> and \<open>as10\<close>; the stored entries have no \<open>name\<close> field. Stated for
  both keyed collections (\<open>filters\<close> and \<open>tasks\<close>), starting from an empty collection.
\<close>

theorem generator_expansion_example:
  "run_generators (C7_configuration ''filters'') =
     Inr [(''filters'', PDict
       [(''as-1'', PDict [(''suffix'', PStr ''as1'')]),
        (''as-5'', PDict [(''suffix'', PStr ''as5'')]),
        (''as-10'', PDict [(''suffix'', PStr ''as10'')])])]
   \<and> run_generators (C7_configuration ''tasks'') =
     Inr [(''tasks'', PDict
       [(''as-1'', PDict [(''suffix'', PStr ''as1'')]),
        (''as-5'', PDict [(''suffix'', PStr ''as5'')]),
        (''as-10'', PDict [(''suffix'', PStr ''as10'')])])]"
  using expansion_filters expansion_tasks by (rule conjI)

text \<open>
  Claim C8. Parameters are substituted in order of descending name length. For every
  parameter mapping the substitution order has non-increasing name lengths; with
  \<open>{"threshold": [1], "threshold10": [99]}\<close> the order is \<open>threshold10\<close>, then
  \<open>threshold\<close>; and a template string \<open>pre @threshold10 post\<close> (with no other \<open>@\<close> in
  it) becomes \<open>pre 99 post\<close>, not \<open>pre 110 post\<close>. The generated key \<open>n-@threshold10\<close>
  becomes \<open>n-99\<close> likewise.
\<close>

theorem placeholder_precedence:
  assumes "CHR ''@'' \<notin> set pre" and "CHR ''@'' \<notin> set post"
  shows "sorted_wrt (\<lambda>a b. length (fst b) \<le> length (fst a)) (parameters_names_and_values items)
    \<and> map fst (parameters_names_and_values
          [(''threshold'', PList [PInt 1]), (''threshold10'', PList [PInt 99])])
        = [''threshold10'', ''threshold'']
    \<and> run_generators (C8_configuration pre post)
        = Inr [(''filters'', PDict [(''n-99'', PDict [(''suffix'', PStr (pre @ ''99'' @ post))])])]"
  using descending [of items] sorted_names c8_run [OF assms] by simp

theorem placeholder_precedence_witness:
  "CHR ''@'' \<notin> set ''as-'' \<and> CHR ''@'' \<notin> set ''-hz''
   \<and> run_generators (C8_configuration ''as-'' ''-hz'')
       = Inr [(''filters'', PDict [(''n-99'', PDict [(''suffix'', PStr ''as-99-hz'')])])]"
  using placeholder_precedence [of "''as-''" "''-hz''"] by simp

text \<open>
  Claim C10. Substitution recurses only into nested mappings. Whatever the generator kind
  and the parameters, a sequence-valued field of the template (reached through any path of
  mapping keys, for example a job template's \<open>filters\<close> list) is found unchanged, element
  for element, in the generated entry: placeholders inside its elements are not
  substituted. For the keyed kinds the path must not start at \<open>name\<close>, the field that is
  removed from the entry.
\<close>

theorem substitution_skips_sequences:
  assumes "generate_entry key generator parameters_values = Inr (entry_name, entry)"
    and "getitem generator ''template'' = Inr template"
    and "lookup_path template p = Some (PList xs)"
    and "key = ''jobs'' \<or> take 1 p \<noteq> [''name'']"
  shows "lookup_path entry p = Some (PList xs)"
  using assms by (rule generate_entry_keeps_lists)

theorem substitution_skips_sequences_witness:
  "generate_entry ''jobs'' C10_generator [(''threshold'', PInt 5)] = Inr (PNone, C10_entry)
   \<and> getitem C10_generator ''template'' = Inr C10_template
   \<and> lookup_path C10_template [''filters'']
       = Some (PList [PStr ''arbiter-saturation-@threshold'', PStr ''@raw(threshold)''])
   \<and> lookup_path C10_entry [''filters'']
       = Some (PList [PStr ''arbiter-saturation-@threshold'', PStr ''@raw(threshold)''])"
proof -
  have e: "generate_entry ''jobs'' C10_generator [(''threshold'', PInt 5)] = Inr (PNone, C10_entry)"
    by code_simp
  have t: "getitem C10_generator ''template'' = Inr C10_template"
    by (simp add: C10_generator_def getitem_def)
  have l: "lookup_path C10_template [''filters'']
      = Some (PList [PStr ''arbiter-saturation-@threshold'', PStr ''@raw(threshold)''])"
    by (simp add: C10_template_def)
  from substitution_skips_sequences [OF e t l] e t l show ?thesis by simp
qed

subsection \<open>The serialisation determines the value up to key order\<close>

text \<open>
  Injectivity is proved piece by piece: escaped characters, quoted strings, integers
  followed by no digit, comma-separated items before a closing bracket, and then whole
  values by induction. The converse sorts two tables with the same distinct keys into the
  same order.
\<close>

lemma of_char_hex_digit:
  assumes "d < 16"
  shows "(of_char (hex_digit d) :: nat) = (if d < 10 then 48 + d else 87 + d)"
proof (cases "d < 10")
  case True
  have "(of_char (char_of (48 + d) :: char) :: nat) = (48 + d) mod 256" by (rule of_char_of)
  with True show ?thesis by (simp add: hex_digit_def)
next
  case False
  have "(of_char (char_of (87 + d) :: char) :: nat) = (87 + d) mod 256" by (rule of_char_of)
  with False assms show ?thesis by (simp add: hex_digit_def)
qed

lemma hex_digit_inj:
  assumes "d < 16" "e < 16" "hex_digit d = hex_digit e"
  shows "d = e"
proof -
  have "(of_char (hex_digit d) :: nat) = of_char (hex_digit e)" using assms(3) by simp
  then show ?thesis
    unfolding of_char_hex_digit [OF assms(1)] of_char_hex_digit [OF assms(2)]
    by (simp split: if_splits)
qed

lemma char_div_mod_inj:
  assumes "(of_char c :: nat) div 16 = of_char c' div 16" "(of_char c :: nat) mod 16 = of_char c' mod 16"
  shows "c = c'"
proof -
  have "(of_char c :: nat) = of_char c'"
    using assms by (metis div_mult_mod_eq)
  then show ?thesis by simp
qed

lemma json_char_cases:
  "(\<exists>e. json_char c = [CHR 0x5C, e] \<and> e \<in> {CHR 0x22, CHR 0x5C, CHR ''b'', CHR ''f'', CHR ''n'', CHR ''r'', CHR ''t''})
   \<or> (json_char c = [c] \<and> c \<noteq> CHR 0x22 \<and> c \<noteq> CHR 0x5C)
   \<or> (json_char c = [CHR 0x5C, CHR ''u'', CHR ''0'', CHR ''0'',
            hex_digit (of_char c div 16), hex_digit (of_char c mod 16)])"
  by (simp add: json_char_def)

lemma json_char_not_quote: "json_char c @ x \<noteq> CHR 0x22 # y"
  using json_char_cases [of c] by auto

lemma json_char_inj:
  assumes "json_char c @ x = json_char c' @ y"
  shows "c = c' \<and> x = y"
proof -
  consider (esc) e where "json_char c = [CHR 0x5C, e]"
      "e \<in> {CHR 0x22, CHR 0x5C, CHR ''b'', CHR ''f'', CHR ''n'', CHR ''r'', CHR ''t''}"
    | (lit) "json_char c = [c]" "c \<noteq> CHR 0x22" "c \<noteq> CHR 0x5C"
    | (uni) "json_char c = [CHR 0x5C, CHR ''u'', CHR ''0'', CHR ''0'',
            hex_digit (of_char c div 16), hex_digit (of_char c mod 16)]"
    using json_char_cases [of c] by blast
  then show ?thesis
  proof cases
    case esc
    then show ?thesis using assms
      by (auto simp: json_char_def split: if_splits)
  next
    case lit
    then show ?thesis using assms json_char_cases [of c'] by auto
  next
    case uni
    have lt: "(of_char c :: nat) div 16 < 16" "(of_char c :: nat) mod 16 < 16"
      "(of_char c' :: nat) div 16 < 16" "(of_char c' :: nat) mod 16 < 16"
      using nat_of_char_less_256 [of c] nat_of_char_less_256 [of c'] by (simp_all add: less_mult_imp_div_less)
    from uni assms json_char_cases [of c']
    have "json_char c' = [CHR 0x5C, CHR ''u'', CHR ''0'', CHR ''0'',
            hex_digit (of_char c' div 16), hex_digit (of_char c' mod 16)]"
      by auto
    with uni assms have "hex_digit (of_char c div 16) = hex_digit (of_char c' div 16)"
      "hex_digit (of_char c mod 16) = hex_digit (of_char c' mod 16)" "x = y"
      by simp_all
    then show ?thesis using lt char_div_mod_inj [of c c'] hex_digit_inj by metis
  qed
qed

lemma json_body_inj:
  "concat (map json_char s) @ CHR 0x22 # r = concat (map json_char s') @ CHR 0x22 # r'
   \<Longrightarrow> s = s' \<and> r = r'"
proof (induction s arbitrary: s')
  case Nil
  then show ?case using json_char_not_quote by (cases s') (auto dest: sym)
next
  case (Cons c cs)
  show ?case
  proof (cases s')
    case Nil
    with Cons.prems show ?thesis using json_char_not_quote by auto
  next
    case (Cons c' cs')
    with Cons.prems have "json_char c @ (concat (map json_char cs) @ CHR 0x22 # r)
        = json_char c' @ (concat (map json_char cs') @ CHR 0x22 # r')" by simp
    then have "c = c'" "concat (map json_char cs) @ CHR 0x22 # r = concat (map json_char cs') @ CHR 0x22 # r'"
      using json_char_inj by blast+
    with Cons.IH [of cs'] Cons show ?thesis by simp
  qed
qed

lemma json_string_inj:
  "json_string s @ r = json_string s' @ r' \<Longrightarrow> s = s' \<and> r = r'"
  using json_body_inj [of s r s' r'] by (simp add: json_string_def)

lemma takeWhile_decimal_ahead:
  assumes "list_all is_decimal ds" "no_digit_ahead r"
  shows "takeWhile is_decimal (ds @ r) = ds" and "dropWhile is_decimal (ds @ r) = r"
  using assms by (induction ds) (auto simp: no_digit_ahead_def split: list.splits)

lemma str_nat_inj_ahead:
  assumes "str_nat n @ r = str_nat m @ r'" "no_digit_ahead r" "no_digit_ahead r'"
  shows "n = m \<and> r = r'"
proof -
  have "takeWhile is_decimal (str_nat n @ r) = str_nat n"
    "takeWhile is_decimal (str_nat m @ r') = str_nat m"
    using assms(2,3) by (simp_all add: takeWhile_decimal_ahead str_nat_decimal)
  with assms(1) have eq: "str_nat n = str_nat m" by simp
  then have "int_of_decimal (str_nat n) = int_of_decimal (str_nat m)" by simp
  then have "n = m" by (simp add: int_of_decimal_str_nat)
  with assms(1) show ?thesis by simp
qed

lemma str_nat_hd: "\<exists>c cs. str_nat n = c # cs \<and> is_decimal c"
  using str_nat_decimal [of n] str_nat_nonempty [of n] by (cases "str_nat n") auto

lemma str_int_inj_ahead:
  assumes "str_int i @ r = str_int j @ r'" "no_digit_ahead r" "no_digit_ahead r'"
  shows "i = j \<and> r = r'"
proof -
  have minus: "\<not> is_decimal CHR ''-''" by (simp add: is_decimal_def)
  consider (nn) "i < 0" "j < 0" | (np) "i < 0" "\<not> j < 0" | (pn) "\<not> i < 0" "j < 0"
    | (pp) "\<not> i < 0" "\<not> j < 0" by blast
  then show ?thesis
  proof cases
    case nn
    with assms have "nat (- i) = nat (- j) \<and> r = r'"
      by (intro str_nat_inj_ahead) (simp_all add: str_int_def)
    with nn show ?thesis by (simp add: nat_eq_iff)
  next
    case np
    with assms(1) str_nat_hd [of "nat j"] minus show ?thesis by (auto simp: str_int_def)
  next
    case pn
    with assms(1) str_nat_hd [of "nat i"] minus show ?thesis by (auto simp: str_int_def)
  next
    case pp
    with assms have "nat i = nat j \<and> r = r'"
      by (intro str_nat_inj_ahead) (simp_all add: str_int_def)
    with pp show ?thesis by (simp add: nat_eq_iff)
  qed
qed

lemma json_dumps_tag:
  "\<exists>c cs. json_dumps v = c # cs \<and> char_tag c = value_tag v"
proof (cases v)
  case (PInt i)
  have "\<not> is_decimal CHR ''n''" "\<not> is_decimal CHR ''t''" "\<not> is_decimal CHR ''f''"
    by (simp_all add: is_decimal_def)
  then have "\<And>c. is_decimal c \<Longrightarrow> char_tag c = 2" by (auto simp: char_tag_def)
  moreover have "char_tag CHR ''-'' = 2" by (simp add: char_tag_def)
  ultimately show ?thesis using PInt str_nat_hd [of "nat i"] str_nat_hd [of "nat (- i)"]
    by (auto simp: str_int_def)
qed (simp_all add: char_tag_def json_string_def is_decimal_def)

lemma json_dumps_tag_eq:
  assumes "json_dumps a @ r = json_dumps b @ r'"
  shows "value_tag a = value_tag b"
  using assms json_dumps_tag [of a] json_dumps_tag [of b] by auto

lemma join_Cons: "join sep (x # xs) = x @ (if xs = [] then [] else sep @ join sep xs)"
  by (cases xs) simp_all

lemma join_inj:
  assumes elem: "\<And>x y s s'. x \<in> set xs \<Longrightarrow> f x @ s = g y @ s' \<Longrightarrow> no_digit_ahead s
        \<Longrightarrow> no_digit_ahead s' \<Longrightarrow> R x y \<and> s = s'"
    and fstart: "\<And>x. x \<in> set xs \<Longrightarrow> \<exists>c cs. f x = c # cs \<and> char_tag c < 6"
    and gstart: "\<And>y. y \<in> set ys \<Longrightarrow> \<exists>c cs. g y = c # cs \<and> char_tag c < 6"
    and close: "char_tag close = 6" "close \<noteq> CHR '',''"
    and eq: "join '','' (map f xs) @ close # r = join '','' (map g ys) @ close # r'"
  shows "list_all2 R xs ys \<and> r = r'"
  using elem fstart gstart eq
proof (induction xs arbitrary: ys)
  case Nil
  show ?case
  proof (cases ys)
    case Nil
    with Nil.prems(4) show ?thesis by simp
  next
    case (Cons y ys')
    with Nil.prems(3) [of y] obtain c cs where "g y = c # cs" "char_tag c < 6" by auto
    with Nil.prems(4) Cons close show ?thesis by (auto simp: join_Cons)
  qed
next
  case (Cons x xs)
  obtain c cs where fx: "f x = c # cs" "char_tag c < 6" using Cons.prems(2) [of x] by auto
  show ?case
  proof (cases ys)
    case Nil
    with Cons.prems(4) fx close show ?thesis by (auto simp: join_Cons)
  next
    case ys: (Cons y ys')
    define t where "t = (if xs = [] then [] else '','' @ join '','' (map f xs)) @ close # r"
    define t' where "t' = (if ys' = [] then [] else '','' @ join '','' (map g ys')) @ close # r'"
    have "\<not> is_decimal close" using close(1) by (auto simp: char_tag_def split: if_splits)
    moreover have "\<not> is_decimal CHR '',''" by (simp add: is_decimal_def)
    ultimately have nd: "no_digit_ahead t" "no_digit_ahead t'"
      by (simp_all add: t_def t'_def no_digit_ahead_def)
    have ft: "f x @ t = g y @ t'" using Cons.prems(4) ys by (simp add: join_Cons t_def t'_def)
    have "R x y \<and> t = t'" by (rule Cons.prems(1) [OF _ ft nd]) simp
    then have xy: "R x y" and tt: "t = t'" by simp_all
    show ?thesis
    proof (cases "xs = []")
      case True
      with tt close show ?thesis using xy ys by (auto simp: t_def t'_def split: if_splits)
    next
      case False
      with tt close have ne: "ys' \<noteq> []"
        and rest: "join '','' (map f xs) @ close # r = join '','' (map g ys') @ close # r'"
        by (auto simp: t_def t'_def split: if_splits)
      have "list_all2 R xs ys' \<and> r = r'"
        using Cons.prems(1,2,3) rest ys by (intro Cons.IH) auto
      with xy ys show ?thesis by simp
    qed
  qed
qed

lemma list_all2_both_sides:
  "list_all2 R xs ys \<Longrightarrow> (\<forall>x \<in> set xs. \<exists>y \<in> set ys. R x y) \<and> (\<forall>y \<in> set ys. \<exists>x \<in> set xs. R x y)"
  by (induction rule: list_all2_induct) auto

lemma json_dumps_start: "\<exists>c cs. json_dumps v = c # cs \<and> char_tag c < 6"
proof -
  have "value_tag v < 6" by (cases v) simp_all
  then show ?thesis using json_dumps_tag [of v] by auto
qed

lemma json_dumps_inj:
  "json_dumps a @ r = json_dumps b @ r' \<Longrightarrow> no_digit_ahead r \<Longrightarrow> no_digit_ahead r'
   \<Longrightarrow> deep_equal a b \<and> r = r'"
proof (induction a arbitrary: b r r')
  case PNone
  from json_dumps_tag_eq [OF PNone(1)] have "b = PNone" by (cases b) simp_all
  with PNone show ?case by simp
next
  case (PBool x)
  from json_dumps_tag_eq [OF PBool(1)] obtain y where "b = PBool y" by (cases b) simp_all
  with PBool show ?case by (auto split: if_splits)
next
  case (PInt i)
  from json_dumps_tag_eq [OF PInt(1)] obtain j where "b = PInt j" by (cases b) simp_all
  with PInt show ?case using str_int_inj_ahead [of i r j r'] by simp
next
  case (PStr s)
  from json_dumps_tag_eq [OF PStr(1)] obtain s' where "b = PStr s'" by (cases b) simp_all
  with PStr show ?case using json_string_inj [of s r s' r'] by simp
next
  case (PList xs)
  from json_dumps_tag_eq [OF PList(2)] obtain ys where b: "b = PList ys" by (cases b) simp_all
  have close: "char_tag CHR '']'' = 6" "CHR '']'' \<noteq> CHR '',''"
    by (simp_all add: char_tag_def is_decimal_def)
  have eq: "join '','' (map json_dumps xs) @ CHR '']'' # r = join '','' (map json_dumps ys) @ CHR '']'' # r'"
    using PList(2) b by simp
  have "list_all2 deep_equal xs ys \<and> r = r'"
  proof (rule join_inj [where f = json_dumps and g = json_dumps, OF _ _ _ close eq])
    fix x y s s'
    assume "x \<in> set xs" "json_dumps x @ s = json_dumps y @ s'" "no_digit_ahead s" "no_digit_ahead s'"
    then show "deep_equal x y \<and> s = s'" by (rule PList.IH)
  qed (rule json_dumps_start)+
  with b show ?case by simp
next
  case (PDict kvs)
  from json_dumps_tag_eq [OF PDict(2)] obtain kvs' where b: "b = PDict kvs'" by (cases b) simp_all
  define f where "f = (\<lambda>kv :: string \<times> pyval. json_string (fst kv) @ '':'' @ json_dumps (snd kv))"
  define R where "R = (\<lambda>kv kw :: string \<times> pyval. fst kv = fst kw \<and> deep_equal (snd kv) (snd kw))"
  have close: "char_tag CHR ''}'' = 6" "CHR ''}'' \<noteq> CHR '',''"
    by (simp_all add: char_tag_def is_decimal_def)
  have eq: "join '','' (map f (sort_key fst kvs)) @ CHR ''}'' # r
      = join '','' (map f (sort_key fst kvs')) @ CHR ''}'' # r'"
    using PDict(2) b by (simp add: f_def)
  have start: "\<exists>c cs. f kv = c # cs \<and> char_tag c < 6" for kv
    by (simp add: f_def json_string_def char_tag_def is_decimal_def)
  have "list_all2 R (sort_key fst kvs) (sort_key fst kvs') \<and> r = r'"
  proof (rule join_inj [where f = f and g = f, OF _ _ _ close eq])
    fix x y s s'
    assume x: "x \<in> set (sort_key fst kvs)" and e: "f x @ s = f y @ s'"
      and nd: "no_digit_ahead s" "no_digit_ahead s'"
    from e have "json_string (fst x) @ ('':'' @ json_dumps (snd x) @ s)
        = json_string (fst y) @ ('':'' @ json_dumps (snd y) @ s')" by (simp add: f_def)
    from json_string_inj [OF this]
    have k: "fst x = fst y" and v: "json_dumps (snd x) @ s = json_dumps (snd y) @ s'"
      by simp_all
    have "x \<in> set kvs" using x by simp
    moreover have "snd x \<in> Basic_BNFs.snds x" by (cases x) simp
    ultimately have "deep_equal (snd x) (snd y) \<and> s = s'" using v nd by (rule PDict.IH)
    with k show "R x y \<and> s = s'" by (simp add: R_def)
  qed (rule start)+
  then have "list_all2 R (sort_key fst kvs) (sort_key fst kvs')" and rr: "r = r'" by simp_all
  from list_all2_both_sides [OF this(1)] have "deep_equal (PDict kvs) (PDict kvs')"
    by (simp add: R_def)
  with b rr show ?case by simp
qed

lemma sorted_keys_unique:
  assumes "distinct (map fst xs)" "distinct (map fst ys)" "set (map fst xs) = set (map fst ys)"
  shows "map fst (sort_key fst xs) = map fst (sort_key fst ys)"
proof (rule sorted_distinct_set_unique)
  show "distinct (map fst (sort_key fst xs))" using assms(1) by (simp add: distinct_map)
  show "distinct (map fst (sort_key fst ys))" using assms(2) by (simp add: distinct_map)
  show "set (map fst (sort_key fst xs)) = set (map fst (sort_key fst ys))" using assms(3) by simp
qed simp_all

lemma deep_equal_keys:
  assumes "deep_equal (PDict xs) (PDict ys)"
  shows "set (map fst xs) = set (map fst ys)"
  using assms by force

lemma deep_equal_imp_json_dumps:
  "deep_equal a b \<Longrightarrow> well_formed a \<Longrightarrow> well_formed b \<Longrightarrow> json_dumps a = json_dumps b"
proof (induction a arbitrary: b)
  case PNone
  then show ?case by (cases b) simp_all
next
  case (PBool x)
  then show ?case by (cases b) simp_all
next
  case (PInt x)
  then show ?case by (cases b) simp_all
next
  case (PStr x)
  then show ?case by (cases b) simp_all
next
  case (PList xs)
  then obtain ys where b: "b = PList ys" by (cases b) simp_all
  with PList.prems have l: "list_all2 deep_equal xs ys" and wx: "list_all well_formed xs"
    and wy: "list_all well_formed ys" by simp_all
  have "map json_dumps xs = map json_dumps ys"
  proof (rule nth_equalityI)
    show "length (map json_dumps xs) = length (map json_dumps ys)"
      using l by (simp add: list_all2_lengthD)
  next
    fix i assume "i < length (map json_dumps xs)"
    then have i: "i < length xs" "i < length ys" using l by (simp_all add: list_all2_lengthD)
    then have "deep_equal (xs ! i) (ys ! i)" using l by (simp add: list_all2_nthD)
    moreover have "well_formed (xs ! i)" "well_formed (ys ! i)"
      using wx wy i by (simp_all add: list_all_length)
    ultimately have "json_dumps (xs ! i) = json_dumps (ys ! i)"
      using i by (intro PList.IH) simp_all
    with i show "map json_dumps xs ! i = map json_dumps ys ! i" by simp
  qed
  with b show ?case by simp
next
  case (PDict xs)
  then obtain ys where b: "b = PDict ys" by (cases b) simp_all
  with PDict.prems have de: "deep_equal (PDict xs) (PDict ys)"
    and dx: "distinct (map fst xs)" and dy: "distinct (map fst ys)"
    and wx: "list_all (\<lambda>kv. well_formed (snd kv)) xs"
    and wy: "list_all (\<lambda>kv. well_formed (snd kv)) ys" by simp_all
  define f where "f = (\<lambda>kv :: string \<times> pyval. json_string (fst kv) @ '':'' @ json_dumps (snd kv))"
  have keys: "map fst (sort_key fst xs) = map fst (sort_key fst ys)"
    using dx dy deep_equal_keys [OF de] by (rule sorted_keys_unique)
  then have len: "length xs = length ys" using length_map length_sort by metis
  have "map f (sort_key fst xs) = map f (sort_key fst ys)"
  proof (rule nth_equalityI)
    show "length (map f (sort_key fst xs)) = length (map f (sort_key fst ys))" using len by simp
  next
    fix i assume "i < length (map f (sort_key fst xs))"
    then have i: "i < length xs" "i < length ys" using len by simp_all
    define p where "p = sort_key fst xs ! i"
    define q where "q = sort_key fst ys ! i"
    have pin: "p \<in> set xs" and qin: "q \<in> set ys"
      using i nth_mem [of i "sort_key fst xs"] nth_mem [of i "sort_key fst ys"]
      by (simp_all add: p_def q_def)
    have "map fst (sort_key fst xs) ! i = map fst (sort_key fst ys) ! i" using keys by simp
    then have k: "fst p = fst q" using i by (simp add: p_def q_def)
    from de pin obtain kw where kw: "kw \<in> set ys" "fst p = fst kw" "deep_equal (snd p) (snd kw)"
      by auto
    have "kw = q" using dy kw(1,2) qin k
      by (metis eq_key_imp_eq_value prod.collapse)
    with kw have d: "deep_equal (snd p) (snd q)" by simp
    have w: "well_formed (snd p)" "well_formed (snd q)"
      using wx wy pin qin by (simp_all add: list_all_iff)
    have "snd p \<in> Basic_BNFs.snds p" by (cases p) simp
    with pin have "json_dumps (snd p) = json_dumps (snd q)" using d w by (rule PDict.IH)
    with k have "f p = f q" by (simp add: f_def)
    with i show "map f (sort_key fst xs) ! i = map f (sort_key fst ys) ! i"
      by (simp add: p_def q_def)
  qed
  with b show ?case by (simp add: f_def)
qed

lemma compare_iff:
  assumes "well_formed a" "well_formed b"
  shows "compare_parameters a b \<longleftrightarrow> deep_equal a b"
proof
  assume "compare_parameters a b"
  then have "json_dumps a @ [] = json_dumps b @ []" by (simp add: compare_parameters_def)
  then have "deep_equal a b \<and> ([] :: string) = []"
    by (rule json_dumps_inj) (simp_all add: no_digit_ahead_def)
  then show "deep_equal a b" by simp
next
  assume "deep_equal a b"
  then show "compare_parameters a b"
    using assms by (simp add: compare_parameters_def deep_equal_imp_json_dumps)
qed



subsection \<open>Validation and job execution\<close>

lemma validate_task_pattern_fails:
  "validate_task_pattern re_compile configuration job task expanded_tasks =
     Inl (case re_compile task of None \<Rightarrow> RegexError task
          | Some fullmatch \<Rightarrow> UnmatchedTaskPattern task (job_name job))"
  by (simp add: validate_task_pattern_def py_in_keys_def Let_def split: option.splits)

lemma attachment_step_key:
  "attachment_step e jd (PStr name) pw = Inl TypeError"
  by (simp add: attachment_step_def getitem_def bindE_def Let_def)

lemma run_attachments_fails:
  "run_attachments e (configuration\<lparr>attachments := (name, v) # rest\<rparr>) jd pw = Inl TypeError"
  by (simp add: run_attachments_def py_iter_def bindE_def attachment_step_key)

lemma all_filters_match_configured:
  assumes "map (map_of (filters configuration)) names = map Some specs"
  shows "all_filters_match configuration p names = Inr (list_all (snapshot_matches configuration p) names)"
  using assms
proof (induction names arbitrary: specs)
  case Nil
  then show ?case by simp
next
  case (Cons n names)
  then obtain s specs' where s: "specs = s # specs'" "map_of (filters configuration) n = Some s"
    "map (map_of (filters configuration)) names = map Some specs'"
    by (cases specs) auto
  from Cons.IH [OF s(3)] s(2) show ?case
    by (simp add: snapshot_matches_def split: option.splits)
qed

lemma apply_chain_trace:
  assumes conf: "map (map_of (filters configuration)) names = map Some specs"
    and n: "n = length names"
  shows "i \<le> n \<Longrightarrow>
    apply_chain e configuration c n i (drop i names) input (p, w) = Inr (p', w') \<Longrightarrow>
    input = (if i = 0 then source c else scratch e (i - 1)) \<Longrightarrow>
    trace w' = trace w @ map (\<lambda>i. Apply (filter_type (specs ! i))
                 (if i = 0 then source c else scratch e (i - 1))
                 (if i = n - 1 then with_suffix (output_path c) ''.part'' else scratch e i)
                 (begin_t c) (end_t c) (filter_parameters (specs ! i))) [i..<n]
    \<and> p' = record_chain (drop i (zip names specs)) p
    \<and> files w' = files w \<union> set (map (\<lambda>i. if i = n - 1 then with_suffix (output_path c) ''.part''
                                             else scratch e i) [i..<n])
    \<and> stored w' = stored w"
proof (induction "n - i" arbitrary: i input p w)
  case 0
  then have "i = n" by simp
  with 0 n show ?case by (simp add: record_chain_def)
next
  case (Suc k)
  then have i: "i < n" by simp
  have len: "length specs = n" using conf n by (metis length_map)
  have dropi: "drop i names = names ! i # drop (Suc i) names"
    using i n by (simp add: Cons_nth_drop_Suc)
  have spec: "map_of (filters configuration) (names ! i) = Some (specs ! i)"
  proof -
    have "map (map_of (filters configuration)) names ! i = map Some specs ! i" using conf by simp
    then show ?thesis using i n len by simp
  qed
  define outp where "outp = (if i = n - 1 then with_suffix (output_path c) ''.part'' else scratch e i)"
  define call where "call = Apply (filter_type (specs ! i)) input outp (begin_t c) (end_t c)
      (filter_parameters (specs ! i))"
  define p1 where "p1 = p\<lparr>p_filters := AList.update (names ! i) (filter_parameters (specs ! i)) (p_filters p)\<rparr>"
  from Suc.prems(2) obtain w1 where w1: "external e call outp w = Inr w1"
    and rest: "apply_chain e configuration c n (Suc i) (drop (Suc i) names) outp (p1, w1) = Inr (p', w')"
    unfolding dropi
    by (auto simp: spec Let_def bindE_def outp_def call_def p1_def split: if_splits sum.splits)
  from w1 have w1': "trace w1 = trace w @ [call]" "files w1 = insert outp (files w)" "stored w1 = stored w"
    by (auto simp: external_def split: if_splits)
  have out: "outp = (if Suc i = 0 then source c else scratch e (Suc i - 1))" if "Suc i < n"
    using that by (auto simp: outp_def)
  have zipi: "drop i (zip names specs) = (names ! i, specs ! i) # drop (Suc i) (zip names specs)"
  proof -
    have "i < length (zip names specs)" using i n len by simp
    from Cons_nth_drop_Suc [OF this] show ?thesis using i n len by simp
  qed
  have upt: "[i..<n] = i # [Suc i..<n]" using i by (simp add: upt_conv_Cons)
  show ?case
  proof (cases "Suc i < n")
    case True
    have "k = n - Suc i" using Suc.hyps(2) by simp
    from Suc.hyps(1) [OF this _ rest out [OF True]] True
    have IH: "trace w' = trace w1 @ map (\<lambda>i. Apply (filter_type (specs ! i))
                 (if i = 0 then source c else scratch e (i - 1))
                 (if i = n - 1 then with_suffix (output_path c) ''.part'' else scratch e i)
                 (begin_t c) (end_t c) (filter_parameters (specs ! i))) [Suc i..<n]"
      "p' = record_chain (drop (Suc i) (zip names specs)) p1"
      "files w' = files w1 \<union> set (map (\<lambda>i. if i = n - 1 then with_suffix (output_path c) ''.part''
                                             else scratch e i) [Suc i..<n])"
      "stored w' = stored w1"
      by simp_all
    show ?thesis
      unfolding upt zipi using IH w1' Suc.prems(3)
      by (simp add: call_def outp_def record_chain_def p1_def)
  next
    case False
    with i have last: "Suc i = n" by simp
    then have "drop (Suc i) names = []" using n by simp
    with rest have "p' = p1" "w' = w1" by simp_all
    moreover have "drop (Suc i) (zip names specs) = []" using last n len by simp
    ultimately show ?thesis
      unfolding upt zipi using w1' Suc.prems(3) last
      by (simp add: call_def outp_def record_chain_def p1_def)
  qed
qed

lemma apply_chain_succeeds:
  assumes conf: "map (map_of (filters configuration)) names = map Some specs"
    and n: "n = length names"
    and types: "list_all (\<lambda>s. filter_type s \<in> set FILTERS) specs"
    and ok: "list_all (external_ok e) (chain_invocations e c specs)"
  shows "i \<le> n \<Longrightarrow> input = (if i = 0 then source c else scratch e (i - 1)) \<Longrightarrow>
    \<exists>p' w'. apply_chain e configuration c n i (drop i names) input (p, w) = Inr (p', w')"
proof (induction "n - i" arbitrary: i input p w)
  case 0
  then have "i = n" by simp
  with n show ?case by simp
next
  case (Suc k)
  then have i: "i < n" by simp
  have len: "length specs = n" using conf n by (metis length_map)
  have dropi: "drop i names = names ! i # drop (Suc i) names"
    using i n by (simp add: Cons_nth_drop_Suc)
  have spec: "map_of (filters configuration) (names ! i) = Some (specs ! i)"
  proof -
    have "map (map_of (filters configuration)) names ! i = map Some specs ! i" using conf by simp
    then show ?thesis using i n len by simp
  qed
  have ty: "filter_type (specs ! i) \<in> set FILTERS"
    using types i len by (simp add: list_all_length)
  define outp where "outp = (if i = n - 1 then with_suffix (output_path c) ''.part'' else scratch e i)"
  have "external_ok e (chain_invocations e c specs ! i)"
    using ok i len by (simp add: list_all_length chain_invocations_def)
  moreover have "chain_invocations e c specs ! i = chain_call e c specs i"
    using i len by (simp add: chain_invocations_def)
  moreover have "chain_call e c specs i = Apply (filter_type (specs ! i)) input outp (begin_t c) (end_t c)
      (filter_parameters (specs ! i))"
    using Suc.prems(2) len by (simp add: chain_call_def outp_def)
  ultimately have call: "external_ok e (Apply (filter_type (specs ! i)) input outp (begin_t c) (end_t c)
      (filter_parameters (specs ! i)))"
    by simp
  have step: "apply_chain e configuration c n i (drop i names) input (p, w)
      = apply_chain e configuration c n (Suc i) (drop (Suc i) names) outp
          (p\<lparr>p_filters := AList.update (names ! i) (filter_parameters (specs ! i)) (p_filters p)\<rparr>,
           w\<lparr>files := insert outp (files w),
             trace := trace w @ [Apply (filter_type (specs ! i)) input outp (begin_t c) (end_t c)
                                  (filter_parameters (specs ! i))]\<rparr>)"
    unfolding dropi using ty call
    by (simp add: spec Let_def bindE_def external_def outp_def)
  show ?case
  proof (cases "Suc i < n")
    case True
    then have "outp = (if Suc i = 0 then source c else scratch e (Suc i - 1))"
      by (auto simp: outp_def)
    moreover have "k = n - Suc i" using Suc.hyps(2) by simp
    ultimately show ?thesis unfolding step using True by (intro Suc.hyps(1)) simp_all
  next
    case False
    with i have "drop (Suc i) names = []" using n by simp
    then show ?thesis unfolding step by simp
  qed
qed

lemma run_filters_chain:
  assumes two: "2 \<le> length (job_filters job)"
    and conf: "map (map_of (filters configuration)) (job_filters job) = map Some specs"
  shows "if chain_up_to_date e configuration job c (p, w)
         then run_filters e configuration job c (p, w) = Inr (p, w)
         else (\<forall>p' w'. run_filters e configuration job c (p, w) = Inr (p', w') \<longrightarrow>
                 trace w' = trace w @ chain_invocations e c specs
                     @ [Rename (with_suffix (output_path c) ''.part'') (output_path c),
                        Save (parameters_path c) p']
                 \<and> p' = record_chain (zip (job_filters job) specs) p
                 \<and> map_of (stored w') (parameters_path c) = Some p'
                 \<and> output_path c \<in> files w')
           \<and> (list_all (\<lambda>s. filter_type s \<in> set FILTERS) specs
                \<and> list_all (external_ok e) (chain_invocations e c specs)
                \<and> with_suffix (output_path c) ''.part'' \<notin> set (map (scratch e) [0..<length specs - 1])
              \<longrightarrow> (\<exists>p' w'. run_filters e configuration job c (p, w) = Inr (p', w')))"
proof -
  define names where "names = job_filters job"
  define n where "n = length names"
  define part where "part = with_suffix (output_path c) ''.part''"
  have len: "length specs = n" using conf unfolding n_def names_def by (metis length_map)
  have n2: "2 \<le> n" "n \<noteq> 1" using two by (simp_all add: n_def names_def)
  have skip: "(if args_force e then Inr False
               else bindE (all_filters_match configuration p names)
                      (\<lambda>m. Inr (m \<and> output_path c \<in> files w)))
      = Inr (chain_up_to_date e configuration job c (p, w))"
    using all_filters_match_configured [OF conf, of p]
    by (auto simp: chain_up_to_date_def bindE_def names_def)
  have run: "run_filters e configuration job c (p, w) =
      (if chain_up_to_date e configuration job c (p, w) then Inr (p, w)
       else bindE (apply_chain e configuration c n 0 names (source c) (p, w))
              (\<lambda>pw. bindE (rename part (output_path c) (remove_scratch e n (snd pw)))
              (\<lambda>w. Inr (fst pw, save_parameters (parameters_path c) (fst pw) w))))"
  proof (cases "args_force e")
    case True
    then have "\<not> chain_up_to_date e configuration job c (p, w)" by (simp add: chain_up_to_date_def)
    with True n2 show ?thesis
      by (simp add: run_filters_def Let_def n_def names_def part_def bindE_def)
  next
    case False
    with skip have "bindE (all_filters_match configuration p names)
                      (\<lambda>m. Inr (m \<and> output_path c \<in> files w))
      = Inr (chain_up_to_date e configuration job c (p, w))" by simp
    with False n2 show ?thesis
      by (simp add: run_filters_def Let_def n_def names_def part_def bindE_def)
  qed
  show ?thesis
  proof (cases "chain_up_to_date e configuration job c (p, w)")
    case True
    then show ?thesis by (simp add: run)
  next
    case False
    have shape: "trace w' = trace w @ chain_invocations e c specs
                     @ [Rename part (output_path c), Save (parameters_path c) p']
                 \<and> p' = record_chain (zip names specs) p
                 \<and> map_of (stored w') (parameters_path c) = Some p'
                 \<and> output_path c \<in> files w'"
      if r: "run_filters e configuration job c (p, w) = Inr (p', w')" for p' w'
    proof -
      from r False obtain p1 w1 w2 where
        a: "apply_chain e configuration c n 0 (drop 0 names) (source c) (p, w) = Inr (p1, w1)"
        and b: "rename part (output_path c) (remove_scratch e n w1) = Inr w2"
        and c: "p' = p1" "w' = save_parameters (parameters_path c) p1 w2"
        by (auto simp: run bindE_def split: sum.splits)
      from apply_chain_trace [OF conf [folded names_def] n_def _ a]
      have t: "trace w1 = trace w @ chain_invocations e c specs"
        and p1: "p1 = record_chain (zip names specs) p"
        by (simp_all add: chain_invocations_def chain_call_def len)
      from b have w2: "trace w2 = trace w1 @ [Rename part (output_path c)]" "output_path c \<in> files w2"
        by (auto simp: rename_def remove_scratch_def split: if_splits)
      show ?thesis using t p1 w2 c
        by (simp add: save_parameters_def update_conv')
    qed
    have exists: "\<exists>p' w'. run_filters e configuration job c (p, w) = Inr (p', w')"
      if ty: "list_all (\<lambda>s. filter_type s \<in> set FILTERS) specs"
        and ok: "list_all (external_ok e) (chain_invocations e c specs)"
        and fresh: "part \<notin> set (map (scratch e) [0..<length specs - 1])"
    proof -
      from apply_chain_succeeds [OF conf [folded names_def] n_def ty ok, of 0 "source c" p w]
      obtain p1 w1 where
        a: "apply_chain e configuration c n 0 (drop 0 names) (source c) (p, w) = Inr (p1, w1)"
        by auto
      from apply_chain_trace [OF conf [folded names_def] n_def _ a]
      have "files w1 = files w \<union> set (map (\<lambda>i. if i = n - 1 then part else scratch e i) [0..<n])"
        by (simp add: part_def)
      moreover have "n - 1 \<in> set [0..<n]" using n2 by simp
      ultimately have "part \<in> files w1" by force
      with fresh have "part \<in> files (remove_scratch e n w1)"
        by (simp add: remove_scratch_def len)
      then obtain w2 where "rename part (output_path c) (remove_scratch e n w1) = Inr w2"
        by (simp add: rename_def)
      with a False show ?thesis by (simp add: run bindE_def)
    qed
    from False shape exists show ?thesis by (simp add: part_def names_def)
  qed
qed

lemma compare_refl: "compare_parameters a a"
  by (simp add: compare_parameters_def)

lemma c5_conf: "map (map_of (filters C5_configuration)) (job_filters C5_job)
    = map Some [C5_default, C5_saturation 5]"
  by (simp add: C5_configuration_def C5_job_def)

lemma c5_changed: "\<not> compare_parameters (PDict [(''threshold'', PInt 1)]) (PDict [(''threshold'', PInt 5)])"
proof -
  have "\<not> deep_equal (PDict [(''threshold'', PInt 1)]) (PDict [(''threshold'', PInt 5)])" by simp
  then show ?thesis using compare_iff [of "PDict [(''threshold'', PInt 1)]" "PDict [(''threshold'', PInt 5)]"]
    by simp
qed

lemma c5_stale: "\<not> chain_up_to_date all_ok C5_configuration C5_job C5_context (C5_parameters 1, C5_world)"
  using c5_changed
  by (simp add: chain_up_to_date_def C5_job_def snapshot_matches_def C5_parameters_def
      C5_configuration_def C5_saturation_def)

lemma c5_fresh: "chain_up_to_date all_ok C5_configuration C5_job C5_context (C5_parameters 5, C5_world)"
  by (simp add: chain_up_to_date_def C5_job_def snapshot_matches_def C5_parameters_def
      C5_configuration_def C5_saturation_def C5_default_def compare_refl all_ok_def C5_world_def
      C5_context_def)

lemma c5_calls: "chain_invocations all_ok C5_context [C5_default, C5_saturation 5]
   = [Apply ''default'' ''cat.es'' ''/tmp/scratch/0.es'' 0 1 (PDict []),
      Apply ''arbiter_saturation'' ''/tmp/scratch/0.es'' ''renders/cat/cat.es.part'' 0 1
        (PDict [(''threshold'', PInt 5)])]"
  by code_simp

lemma attachment_step_never_saves:
  assumes "attachment_step e d a (p, w) = Inr (p', w')"
  shows "stored w' = stored w"
  using assms
  by (auto simp: attachment_step_def Let_def bindE_def copy2_def rename_def
      split: if_splits sum.splits)

lemma c3_skip:
  "attachment_step all_ok ''renders/cat'' C4_attachment
     (C4_parameters\<lparr>p_attachments := [(''notes.txt'', ''dog.txt'')]\<rparr>,
      C4_world\<lparr>files := insert ''renders/cat/notes.txt'' (files C4_world)\<rparr>)
   = Inr (C4_parameters\<lparr>p_attachments := [(''notes.txt'', ''cat.txt'')]\<rparr>,
          C4_world\<lparr>files := insert ''renders/cat/notes.txt'' (files C4_world)\<rparr>)"
  by code_simp

lemma run_filters_persists:
  assumes "run_filters e configuration job c (p, w) = Inr (p', w')"
  shows "(p', w') = (p, w) \<or> load_parameters (parameters_path c) w' = Some p'"
  using assms
  by (auto simp: run_filters_def Let_def bindE_def save_parameters_def load_parameters_def update_conv'
      split: if_splits sum.splits option.splits)

lemma task_step_persists:
  assumes "task_step e configuration c name task_name (p, w) = Inr (p', w')"
  shows "(p', w') = (p, w) \<or> load_parameters (parameters_path c) w' = Some p'"
  using assms
  by (auto simp: task_step_def Let_def bindE_def save_parameters_def load_parameters_def update_conv'
      split: if_splits sum.splits option.splits)

text \<open>
  Claim C1 (the code departs from it). Validation should fail with an unmatched-pattern
  error only for a pattern that matches no task name. The test at the end of the pattern
  loop reads \<open>not found in configuration["tasks"]\<close>, which asks whether the boolean
  \<open>found\<close> is a key of the tasks mapping; it never is, so the error is raised for every
  pattern. Here the pattern \<open>video\<close> matches the task \<open>video\<close> and validation still fails.
\<close>

theorem validation_rejects_matching_pattern:
  "validate literal_regex round_fraction C1_configuration = Inl (UnmatchedTaskPattern ''video'' ''cat'')"
  by (simp add: validate_def validate_job_def C1_configuration_def bindE_def
      validate_task_pattern_fails literal_regex_def)


text \<open>
  Claim C3 (the code departs from it). Every configured attachment should be either skipped
  or copied. The attachment loop iterates over the attachments mapping itself, so each
  \<open>attachment\<close> is a job name (a string) and reading its \<open>target\<close> or \<open>source\<close> is a type
  error: a run with one configured attachment stops there, before any copy.
\<close>

theorem attachment_loop_type_error:
  "run all_ok literal_regex round_fraction C3_configuration C3_world = Inl TypeError"
  by code_simp


text \<open>
  Claim C5. For a job with two or more filters whose names are all configured, the chain
  is skipped as a whole exactly when force is not set, every filter of the chain has a
  stored snapshot that compares equal to its configured parameters, and the final artifact
  exists (\<open>chain_up_to_date\<close>): then nothing is invoked and neither the state nor the
  disk changes. In every other case a run that returns has invoked every filter of the
  chain, in order and whether or not its own parameters changed: the first reads the
  original source, each later one reads the scratch file the one before it wrote, only the
  last writes the final artifact's temporary name, which is then renamed into place, and
  the state with every filter's snapshot is saved once. Such a run does return when every
  filter type is known, every invocation succeeds and no scratch file carries the
  temporary name.
\<close>

theorem filter_chain_all_or_nothing:
  assumes "2 \<le> length (job_filters job)"
    and "map (map_of (filters configuration)) (job_filters job) = map Some specs"
  shows "if chain_up_to_date e configuration job c (p, w)
         then run_filters e configuration job c (p, w) = Inr (p, w)
         else (\<forall>p' w'. run_filters e configuration job c (p, w) = Inr (p', w') \<longrightarrow>
                 trace w' = trace w @ chain_invocations e c specs
                     @ [Rename (with_suffix (output_path c) ''.part'') (output_path c),
                        Save (parameters_path c) p']
                 \<and> p' = record_chain (zip (job_filters job) specs) p
                 \<and> map_of (stored w') (parameters_path c) = Some p'
                 \<and> output_path c \<in> files w')
           \<and> (list_all (\<lambda>s. filter_type s \<in> set FILTERS) specs
                \<and> list_all (external_ok e) (chain_invocations e c specs)
                \<and> with_suffix (output_path c) ''.part'' \<notin> set (map (scratch e) [0..<length specs - 1])
              \<longrightarrow> (\<exists>p' w'. run_filters e configuration job c (p, w) = Inr (p', w')))"
  using assms by (rule run_filters_chain)

theorem filter_chain_all_or_nothing_witness:
  "2 \<le> length (job_filters C5_job)
   \<and> map (map_of (filters C5_configuration)) (job_filters C5_job) = map Some [C5_default, C5_saturation 5]
   \<and> chain_up_to_date all_ok C5_configuration C5_job C5_context (C5_parameters 5, C5_world)
   \<and> run_filters all_ok C5_configuration C5_job C5_context (C5_parameters 5, C5_world)
       = Inr (C5_parameters 5, C5_world)
   \<and> \<not> chain_up_to_date all_ok C5_configuration C5_job C5_context (C5_parameters 1, C5_world)
   \<and> (\<exists>w'. run_filters all_ok C5_configuration C5_job C5_context (C5_parameters 1, C5_world)
             = Inr (C5_parameters 5, w')
          \<and> trace w' =
              [Apply ''default'' ''cat.es'' ''/tmp/scratch/0.es'' 0 1 (PDict []),
               Apply ''arbiter_saturation'' ''/tmp/scratch/0.es'' ''renders/cat/cat.es.part'' 0 1
                 (PDict [(''threshold'', PInt 5)]),
               Rename ''renders/cat/cat.es.part'' ''renders/cat/cat.es'',
               Save ''renders/cat/parameters.toml'' (C5_parameters 5)])"
proof -
  have two: "2 \<le> length (job_filters C5_job)" by (simp add: C5_job_def)
  note T = filter_chain_all_or_nothing [OF two c5_conf, of all_ok C5_context _ C5_world]
  from T [of "C5_parameters 5"] c5_fresh
  have skip: "run_filters all_ok C5_configuration C5_job C5_context (C5_parameters 5, C5_world)
       = Inr (C5_parameters 5, C5_world)" by simp
  have types: "list_all (\<lambda>s. filter_type s \<in> set FILTERS) [C5_default, C5_saturation 5]"
    by (simp add: C5_default_def C5_saturation_def FILTERS_def)
  have ok: "list_all (external_ok all_ok) (chain_invocations all_ok C5_context [C5_default, C5_saturation 5])"
    by (simp add: all_ok_def list_all_iff)
  have fresh: "with_suffix (output_path C5_context) ''.part''
      \<notin> set (map (scratch all_ok) [0..<length [C5_default, C5_saturation 5] - 1])"
    by (simp add: all_ok_def with_suffix_def C5_context_def)
  from T [of "C5_parameters 1"] c5_stale types ok fresh
  obtain p' w' where r: "run_filters all_ok C5_configuration C5_job C5_context (C5_parameters 1, C5_world)
      = Inr (p', w')" by auto
  with T [of "C5_parameters 1"] c5_stale
  have t: "trace w' = trace C5_world @ chain_invocations all_ok C5_context [C5_default, C5_saturation 5]
                     @ [Rename (with_suffix (output_path C5_context) ''.part'') (output_path C5_context),
                        Save (parameters_path C5_context) p']"
    and p: "p' = record_chain (zip (job_filters C5_job) [C5_default, C5_saturation 5]) (C5_parameters 1)"
    by simp_all
  have p5: "p' = C5_parameters 5"
    unfolding p by (simp add: record_chain_def C5_job_def C5_parameters_def C5_default_def C5_saturation_def)
  have "trace w' =
              [Apply ''default'' ''cat.es'' ''/tmp/scratch/0.es'' 0 1 (PDict []),
               Apply ''arbiter_saturation'' ''/tmp/scratch/0.es'' ''renders/cat/cat.es.part'' 0 1
                 (PDict [(''threshold'', PInt 5)]),
               Rename ''renders/cat/cat.es.part'' ''renders/cat/cat.es'',
               Save ''renders/cat/parameters.toml'' (C5_parameters 5)]"
    unfolding t c5_calls p5 by (simp add: C5_world_def C5_context_def with_suffix_def)
  with r p5 two c5_conf c5_fresh c5_stale skip show ?thesis by blast
qed


text \<open>
  Further properties of the pipeline, beyond the listed claims.

  Every task pattern is rejected by validation, whatever the regular-expression engine
  makes of it and whether or not it matches a task name.
\<close>

theorem task_pattern_always_rejected:
  "validate_task_pattern re_compile configuration job task expanded_tasks =
     Inl (case re_compile task of None \<Rightarrow> RegexError task
          | Some fullmatch \<Rightarrow> UnmatchedTaskPattern task (job_name job))"
  by (rule validate_task_pattern_fails)

text \<open>
  The attachment loop ends in a type error for every non-empty attachments mapping,
  with or without force.
\<close>

theorem nonempty_attachments_type_error:
  "run_attachments e (configuration\<lparr>attachments := (name, v) # rest\<rparr>) target_directory pw
     = Inl TypeError"
  by (rule run_attachments_fails)

text \<open>
  A filter stage that returns has either changed nothing (the skip) or left on disk exactly
  the state record it returns.
\<close>

theorem filter_stage_persists:
  assumes "run_filters e configuration job c (p, w) = Inr (p', w')"
  shows "(p', w') = (p, w) \<or> load_parameters (parameters_path c) w' = Some p'"
  using assms by (rule run_filters_persists)

theorem filter_stage_persists_witness:
  "\<exists>p' w'. run_filters all_ok C5_configuration C5_job C5_context (C5_parameters 1, C5_world) = Inr (p', w')
     \<and> ((p', w') = (C5_parameters 1, C5_world) \<or> load_parameters (parameters_path C5_context) w' = Some p')"
proof -
  have two: "2 \<le> length (job_filters C5_job)" by (simp add: C5_job_def)
  have types: "list_all (\<lambda>s. filter_type s \<in> set FILTERS) [C5_default, C5_saturation 5]"
    by (simp add: C5_default_def C5_saturation_def FILTERS_def)
  have ok: "list_all (external_ok all_ok) (chain_invocations all_ok C5_context [C5_default, C5_saturation 5])"
    by (simp add: all_ok_def list_all_iff)
  have fresh: "with_suffix (output_path C5_context) ''.part''
      \<notin> set (map (scratch all_ok) [0..<length [C5_default, C5_saturation 5] - 1])"
    by (simp add: all_ok_def with_suffix_def C5_context_def)
  from run_filters_chain [OF two c5_conf, of all_ok C5_context "C5_parameters 1" C5_world]
    c5_stale types ok fresh
  obtain p' w' where r: "run_filters all_ok C5_configuration C5_job C5_context (C5_parameters 1, C5_world)
      = Inr (p', w')" by auto
  from filter_stage_persists [OF r] r show ?thesis by blast
qed

text \<open>
  A task step that returns has either changed nothing (the skip) or left on disk exactly
  the state record it returns.
\<close>

theorem task_stage_persists:
  assumes "task_step e configuration c name task_name (p, w) = Inr (p', w')"
  shows "(p', w') = (p, w) \<or> load_parameters (parameters_path c) w' = Some p'"
  using assms by (rule task_step_persists)

theorem task_stage_persists_witness:
  "\<exists>p' w'. task_step all_ok C2_configuration C5_context ''cat'' ''colourtime-prism''
       (C5_parameters 5, C5_world) = Inr (p', w')
     \<and> ((p', w') = (C5_parameters 5, C5_world) \<or> load_parameters (parameters_path C5_context) w' = Some p')"
proof -
  have "case task_step all_ok C2_configuration C5_context ''cat'' ''colourtime-prism''
       (C5_parameters 5, C5_world) of Inl err \<Rightarrow> False | Inr pw \<Rightarrow> True"
    by code_simp
  then obtain p' w' where r: "task_step all_ok C2_configuration C5_context ''cat'' ''colourtime-prism''
       (C5_parameters 5, C5_world) = Inr (p', w')"
    by (auto split: sum.splits)
  from task_stage_persists [OF r] r show ?thesis by blast
qed

text \<open>
  The body of the attachment loop never writes the state document, whether it copies or
  skips.
\<close>

theorem attachment_stage_never_persists:
  assumes "attachment_step e target_directory attachment (p, w) = Inr (p', w')"
  shows "stored w' = stored w"
  using assms by (rule attachment_step_never_saves)

theorem attachment_stage_never_persists_witness:
  "\<exists>p' w'. attachment_step all_ok ''renders/cat'' C4_attachment (C4_parameters, C4_world) = Inr (p', w')
     \<and> stored w' = stored C4_world \<and> p_attachments p' \<noteq> p_attachments C4_parameters"
proof -
  have "case attachment_step all_ok ''renders/cat'' C4_attachment (C4_parameters, C4_world) of
      Inl err \<Rightarrow> False | Inr pw \<Rightarrow> p_attachments (fst pw) \<noteq> p_attachments C4_parameters"
    by code_simp
  then obtain p' w' where r: "attachment_step all_ok ''renders/cat'' C4_attachment (C4_parameters, C4_world)
      = Inr (p', w')" and d: "p_attachments p' \<noteq> p_attachments C4_parameters"
    by (auto split: sum.splits)
  from attachment_stage_never_persists [OF r] r d show ?thesis by blast
qed


end
